theory Spec2Isabelle
  imports Main "HOL-Library.Word"
begin

section \<open>Battery measurement module (source/modules/m_batt_meas.c)\<close>

text \<open>
  A shallow embedding of the battery measurement module. Module-level variables
  become the fields of a state record, every call into the SDK (SAADC driver,
  scheduler, battery service, application handler) is appended to a call log kept
  in the state, and every place where the C code stops (the application error
  handler, undefined behaviour) is an \<open>Inl\<close> result.
\<close>

subsection \<open>Status codes and faults\<close>

text \<open>
  Status codes are kept symbolic. \<open>M_BATT_STATUS_CODE_SUCCESS\<close> is the value of
  \<open>NRF_SUCCESS\<close>: the module passes its own status codes to \<open>APP_ERROR_CHECK\<close>
  (lines 91-92, 438-439), which compares against \<open>NRF_SUCCESS\<close>.
\<close>

datatype ret_code =
    NRF_SUCCESS
  | NRF_ERROR_INVALID_STATE
  | NRF_ERROR_NULL
  | BLE_ERROR_GATTS_SYS_ATTR_MISSING
  | M_BATT_STATUS_CODE_INVALID_PARAM
  | NRF_ERROR_OTHER nat

abbreviation M_BATT_STATUS_CODE_SUCCESS :: ret_code where
  "M_BATT_STATUS_CODE_SUCCESS \<equiv> NRF_SUCCESS"

text \<open>
  \<open>App_Error e\<close>: \<open>APP_ERROR_CHECK\<close> or \<open>APP_ERROR_HANDLER\<close> handed \<open>e\<close> to the
  application error handler, which does not return to the module. The other
  constructors are the undefined behaviours of the C code that the model makes
  explicit.
\<close>

datatype fault =
    App_Error ret_code
  | Division_By_Zero
  | Out_Of_Bounds
  | Null_Call

subsection \<open>Data model (declared in m\_batt\_meas.h)\<close>

text \<open>
  Modelled from the spec: the header m\_batt\_meas.h is not part of the sources.
  Field names are the ones the C file uses; the widths are those of the data
  model of the specification (resistors 32 bit, voltages and table step 16 bit,
  table entries 8 bit). \<open>num_elements\<close> is taken to be 16 bit as well.
\<close>

record voltage_divider =
  r_1_ohm :: "32 word"
  r_2_ohm :: "32 word"

record state_of_charge =
  num_elements :: "16 word"
  first_element_mv :: "16 word"
  delta_mv :: "16 word"
  voltage_to_soc :: "8 word list"

record batt_meas_param =
  batt_mon_en_pin_used :: bool
  batt_voltage_limit_low :: "16 word"
  batt_voltage_limit_full :: "16 word"
  state_of_charge :: state_of_charge
  voltage_divider :: voltage_divider

text \<open>The event handler is a function pointer; \<open>None\<close> is the null pointer.\<close>

type_synonym handler = nat

record batt_meas_init =
  evt_handler :: "handler option"
  batt_meas_param :: batt_meas_param

datatype m_batt_meas_event_type =
    M_BATT_MEAS_EVENT_DATA
  | M_BATT_MEAS_EVENT_LOW
  | M_BATT_MEAS_EVENT_FULL

record m_batt_meas_event =
  type :: m_batt_meas_event_type
  voltage_mv :: "16 word"
  level_percent :: "8 word"
  valid_voltage :: bool

subsection \<open>State of charge lookup\<close>

text \<open>
  C integer division truncates towards zero; \<open>div\<close> on \<open>int\<close> rounds down.
\<close>

definition c_div :: "int \<Rightarrow> int \<Rightarrow> int" where
  "c_div a b = sgn a * sgn b * (\<bar>a\<bar> div \<bar>b\<bar>)"

text \<open>
  The conversion of an \<open>int\<close> to \<open>int16_t\<close> keeps the low 16 bits (the
  behaviour of the compilers for this target).
\<close>

definition to_int16 :: "int \<Rightarrow> int" where
  "to_int16 i = sint (word_of_int i :: 16 word)"

text \<open>
  \<open>batt_voltage_to_percent\<close> (lines 63-81). The operands of the subtraction, of the
  division and of \<open>num_elements - 1\<close> are promoted to \<open>int\<close>; the quotient is stored
  in an \<open>int16_t\<close>. Division by zero and a read outside the table are undefined
  behaviour in C and faults here.
\<close>

definition batt_voltage_to_percent :: "batt_meas_param \<Rightarrow> 16 word \<Rightarrow> fault + 8 word" where
  "batt_voltage_to_percent p v =
     (let soc = state_of_charge p in
      if delta_mv soc = 0 then Inl Division_By_Zero
      else
        let soc_vector_element =
              to_int16 (c_div (uint v - uint (first_element_mv soc)) (uint (delta_mv soc)));
            soc_vector_element =
              (if soc_vector_element < 0 then 0
               else if soc_vector_element > uint (num_elements soc) - 1
                 then to_int16 (uint (num_elements soc) - 1)
               else soc_vector_element)
        in if 0 \<le> soc_vector_element \<and> nat soc_vector_element < length (voltage_to_soc soc)
           then Inr (voltage_to_soc soc ! nat soc_vector_element)
           else Inl Out_Of_Bounds)"

text \<open>
  The lookup as the specification words it: floor division, then the index clamped
  to \<open>[0, num_elements - 1]\<close>.
\<close>

definition voltage_to_percent_spec :: "state_of_charge \<Rightarrow> 16 word \<Rightarrow> 8 word" where
  "voltage_to_percent_spec soc v =
     (let index = (uint v - uint (first_element_mv soc)) div uint (delta_mv soc);
          index = max 0 (min (uint (num_elements soc) - 1) index)
      in voltage_to_soc soc ! nat index)"

subsection \<open>Floating-point values\<close>

text \<open>
  The module computes with \<open>float\<close> and \<open>double\<close> in two places. The model does
  not evaluate floating-point arithmetic: a floating-point value is kept as the
  expression that produced it, and the one expression that converts a floating-point
  result back to an integer (lines 94-95) is a parameter of the model.

  \<open>Factor_Zero\<close> is the zero-initialised static; \<open>Factor_One\<close> is the value \<open>1\<close>;
  \<open>Factor_Quotient n d\<close> is the value of \<open>n / (float) d\<close>.
\<close>

datatype divider_factor =
    Factor_Zero
  | Factor_One
  | Factor_Quotient "32 word" "32 word"

datatype nrf_saadc_gain_t =
    NRF_SAADC_GAIN1_6
  | NRF_SAADC_GAIN1_5
  | NRF_SAADC_GAIN1_4
  | NRF_SAADC_GAIN1_3
  | NRF_SAADC_GAIN1_2
  | NRF_SAADC_GAIN1
  | NRF_SAADC_GAIN2
  | NRF_SAADC_GAIN4
  | NRF_SAADC_GAIN_OTHER nat

text \<open>
  \<open>adc_gain_enum_to_real_gain\<close> (lines 35-59): \<open>Inr (n, d)\<close> is a successful return
  with \<open>*real_val\<close> set to \<open>n / (float) d\<close>; \<open>Inl\<close> is the status returned by the
  default case, which leaves \<open>*real_val\<close> untouched.
\<close>

fun adc_gain_enum_to_real_gain :: "nrf_saadc_gain_t \<Rightarrow> ret_code + (int \<times> int)" where
  "adc_gain_enum_to_real_gain NRF_SAADC_GAIN1_6 = Inr (1, 6)"
| "adc_gain_enum_to_real_gain NRF_SAADC_GAIN1_5 = Inr (1, 5)"
| "adc_gain_enum_to_real_gain NRF_SAADC_GAIN1_4 = Inr (1, 4)"
| "adc_gain_enum_to_real_gain NRF_SAADC_GAIN1_3 = Inr (1, 3)"
| "adc_gain_enum_to_real_gain NRF_SAADC_GAIN1_2 = Inr (1, 2)"
| "adc_gain_enum_to_real_gain NRF_SAADC_GAIN1 = Inr (1, 1)"
| "adc_gain_enum_to_real_gain NRF_SAADC_GAIN2 = Inr (2, 1)"
| "adc_gain_enum_to_real_gain NRF_SAADC_GAIN4 = Inr (3, 1)"
| "adc_gain_enum_to_real_gain (NRF_SAADC_GAIN_OTHER n) = Inl M_BATT_STATUS_CODE_INVALID_PARAM"

definition ADC_GAIN :: nrf_saadc_gain_t where
  "ADC_GAIN = NRF_SAADC_GAIN1"

subsection \<open>Environment\<close>

text \<open>
  What the module cannot decide by itself is an input of the model: the status
  codes returned by SDK calls, the value of the floating-point expression of
  \<open>adc_to_batt_voltage\<close>, and the constant \<open>MEAS_INTERVAL_LOW_LIMIT_MS\<close> of the
  absent header.

  \<open>float_millivolts e gain factor adc_val\<close> stands for
  \<open>(uint16_t) (((float) (adc_val / ((gain / ADC_REFERENCE_VOLTAGE) * pow(2, ADC_RESOLUTION_BITS)))
     / factor) * 1000)\<close>.
\<close>

record env =
  float_millivolts :: "int \<times> int \<Rightarrow> divider_factor \<Rightarrow> 32 word \<Rightarrow> 16 word"
  saadc_channel_init_ret :: ret_code
  saadc_buffer_convert_ret :: ret_code
  saadc_sample_ret :: ret_code
  saadc_calibrate_offset_ret :: ret_code
  sched_event_put_ret :: ret_code
  bas_battery_level_update_ret :: ret_code
  bas_init_ret :: ret_code
  gpiote_out_init_ret :: ret_code
  timer_create_ret :: ret_code
  timer_start_ret :: ret_code
  timer_stop_ret :: ret_code
  MEAS_INTERVAL_LOW_LIMIT_MS :: "32 word"

subsection \<open>Module state and call log\<close>

datatype call =
    Nrf_Drv_Saadc_Init
  | Nrf_Drv_Saadc_Channel_Init
  | Nrf_Drv_Saadc_Buffer_Convert
  | Nrf_Drv_Saadc_Sample
  | Nrf_Drv_Saadc_Calibrate_Offset
  | Nrf_Drv_Saadc_Uninit
  | Adc_To_Batt_Voltage "32 word"
  | App_Sched_Event_Put "16 word"
  | Batt_Voltage_To_Percent "16 word"
  | Ble_Bas_Battery_Level_Update "8 word"
  | Ble_Bas_Init "8 word"
  | Evt_Handler handler m_batt_meas_event
  | Nrf_Drv_Gpiote_Out_Init
  | Nrf_Drv_Gpiote_Out_Set
  | Nrf_Drv_Gpiote_Out_Clear
  | Nrf_Gpio_Cfg_Input
  | App_Timer_Create
  | App_Timer_Start "32 word"
  | App_Timer_Stop

text \<open>
  The statics of the module (lines 20-27), the state of the collaborators that the
  module observes (whether the SAADC driver is initialised, the scheduler queue of
  events for \<open>batt_event_handler_adc\<close>), and the call log.
\<close>

record state =
  m_evt_handler :: "handler option"
  m_batt_meas_param :: batt_meas_param
  m_battery_divider_factor :: divider_factor
  m_adc_cal_in_progress :: bool
  m_ble_bas_configured :: bool
  m_initial_batt_level_percent :: "8 word"
  saadc_initialized :: bool
  sched_queue :: "16 word list"
  timer_running :: bool
  calls :: "call list"

definition log_call :: "call \<Rightarrow> state \<Rightarrow> state" where
  "log_call c s = s\<lparr>calls := calls s @ [c]\<rparr>"

subsection \<open>SDK collaborators\<close>

text \<open>
  Modelled from the spec: the SAADC driver is not part of the sources. The ADC has
  one owner at a time: \<open>nrf_drv_saadc_init\<close> claims it and answers
  \<open>NRF_ERROR_INVALID_STATE\<close> when it is already initialised (the condition that
  line 315 tests for), \<open>nrf_drv_saadc_uninit\<close> releases it. The other driver calls
  answer what the environment says.
\<close>

definition nrf_drv_saadc_init :: "state \<Rightarrow> ret_code \<times> state" where
  "nrf_drv_saadc_init s =
     (if saadc_initialized s then (NRF_ERROR_INVALID_STATE, log_call Nrf_Drv_Saadc_Init s)
      else (NRF_SUCCESS, log_call Nrf_Drv_Saadc_Init (s\<lparr>saadc_initialized := True\<rparr>)))"

definition nrf_drv_saadc_uninit :: "state \<Rightarrow> state" where
  "nrf_drv_saadc_uninit s = log_call Nrf_Drv_Saadc_Uninit (s\<lparr>saadc_initialized := False\<rparr>)"

definition nrf_drv_saadc_channel_init :: "env \<Rightarrow> state \<Rightarrow> ret_code \<times> state" where
  "nrf_drv_saadc_channel_init e s = (saadc_channel_init_ret e, log_call Nrf_Drv_Saadc_Channel_Init s)"

definition nrf_drv_saadc_buffer_convert :: "env \<Rightarrow> state \<Rightarrow> ret_code \<times> state" where
  "nrf_drv_saadc_buffer_convert e s =
     (saadc_buffer_convert_ret e, log_call Nrf_Drv_Saadc_Buffer_Convert s)"

definition nrf_drv_saadc_sample :: "env \<Rightarrow> state \<Rightarrow> ret_code \<times> state" where
  "nrf_drv_saadc_sample e s = (saadc_sample_ret e, log_call Nrf_Drv_Saadc_Sample s)"

definition nrf_drv_saadc_calibrate_offset :: "env \<Rightarrow> state \<Rightarrow> ret_code \<times> state" where
  "nrf_drv_saadc_calibrate_offset e s =
     (saadc_calibrate_offset_ret e, log_call Nrf_Drv_Saadc_Calibrate_Offset s)"

text \<open>
  Modelled from the spec: the scheduler is not part of the sources. It is the
  deferred-execution primitive: \<open>app_sched_event_put\<close> copies the event data into a
  queue when it succeeds.
\<close>

definition app_sched_event_put :: "env \<Rightarrow> 16 word \<Rightarrow> state \<Rightarrow> ret_code \<times> state" where
  "app_sched_event_put e v s =
     (if sched_event_put_ret e = NRF_SUCCESS
      then (NRF_SUCCESS, log_call (App_Sched_Event_Put v) (s\<lparr>sched_queue := sched_queue s @ [v]\<rparr>))
      else (sched_event_put_ret e, log_call (App_Sched_Event_Put v) s))"

subsection \<open>Raw code to millivolts\<close>

text \<open>
  \<open>adc_to_batt_voltage\<close> (lines 85-99). \<open>APP_ERROR_CHECK\<close> stops at a status other
  than \<open>NRF_SUCCESS\<close>. Line 96 is integer arithmetic: \<open>tmp_voltage\<close> is promoted to
  \<open>int\<close>, and the result is stored in a \<open>uint16_t\<close>.
\<close>

definition round_to_tens :: "16 word \<Rightarrow> 16 word" where
  "round_to_tens tmp_voltage = word_of_int (c_div (uint tmp_voltage + 5) 10 * 10)"

definition adc_to_batt_voltage :: "env \<Rightarrow> 32 word \<Rightarrow> state \<Rightarrow> fault + (ret_code \<times> 16 word \<times> state)" where
  "adc_to_batt_voltage e adc_val s =
     (let s = log_call (Adc_To_Batt_Voltage adc_val) s in
      case adc_gain_enum_to_real_gain ADC_GAIN of
        Inl err_code \<Rightarrow> Inl (App_Error err_code)
      | Inr adc_gain \<Rightarrow>
          let tmp_voltage = float_millivolts e adc_gain (m_battery_divider_factor s) adc_val
          in Inr (M_BATT_STATUS_CODE_SUCCESS, round_to_tens tmp_voltage, s))"

subsection \<open>Parameter check\<close>

text \<open>
  \<open>param_check\<close> (lines 142-170). \<open>VERIFY_PARAM_NOT_NULL\<close> returns \<open>NRF_ERROR_NULL\<close>
  for a null pointer. The sum of the resistors is a 32 bit unsigned addition. The
  divider factor is written before the thresholds are compared.
\<close>

definition param_check :: "batt_meas_init option \<Rightarrow> state \<Rightarrow> ret_code \<times> state" where
  "param_check p_batt_meas_init s =
     (case p_batt_meas_init of
        None \<Rightarrow> (NRF_ERROR_NULL, s)
      | Some i \<Rightarrow>
          (case evt_handler i of
             None \<Rightarrow> (NRF_ERROR_NULL, s)
           | Some h \<Rightarrow>
               let r1 = r_1_ohm (voltage_divider (batt_meas_param i));
                   r2 = r_2_ohm (voltage_divider (batt_meas_param i));
                   check_limits = (\<lambda>s.
                     if batt_voltage_limit_full (batt_meas_param i)
                          < batt_voltage_limit_low (batt_meas_param i)
                     then (M_BATT_STATUS_CODE_INVALID_PARAM, s)
                     else (M_BATT_STATUS_CODE_SUCCESS, s))
               in if r1 = 0 \<and> r2 = 0
                  then check_limits (s\<lparr>m_battery_divider_factor := Factor_One\<rparr>)
                  else if r1 = 0 \<or> r2 = 0
                  then (M_BATT_STATUS_CODE_INVALID_PARAM, s)
                  else check_limits
                         (s\<lparr>m_battery_divider_factor := Factor_Quotient r2 (r1 + r2)\<rparr>)))"

subsection \<open>Deferred handler\<close>

text \<open>
  \<open>batt_event_handler_adc\<close> (lines 189-232), run by the scheduler in main context.
  The scheduler hands back the two bytes that \<open>app_sched_event_put\<close> copied, so the
  \<open>memcpy\<close> fills \<open>voltage_mv\<close>. \<open>APP_ERROR_HANDLER\<close> stops. Calling a null
  \<open>m_evt_handler\<close> is undefined behaviour.
\<close>

definition batt_event_handler_adc :: "env \<Rightarrow> 16 word \<Rightarrow> state \<Rightarrow> fault + state" where
  "batt_event_handler_adc e p_event_data s =
     (let v = p_event_data;
          t = (if v \<le> batt_voltage_limit_low (m_batt_meas_param s) then M_BATT_MEAS_EVENT_LOW
               else if v \<ge> batt_voltage_limit_full (m_batt_meas_param s) then M_BATT_MEAS_EVENT_FULL
               else M_BATT_MEAS_EVENT_DATA)
      in case batt_voltage_to_percent (m_batt_meas_param s) v of
           Inl f \<Rightarrow> Inl f
         | Inr battery_level_percent \<Rightarrow>
             let s = log_call (Batt_Voltage_To_Percent v) s;
                 batt_meas_evt = \<lparr>type = t, voltage_mv = v,
                                  level_percent = battery_level_percent, valid_voltage = True\<rparr>;
                 dispatch = (\<lambda>s. case m_evt_handler s of
                                    None \<Rightarrow> Inl Null_Call
                                  | Some h \<Rightarrow> Inr (log_call (Evt_Handler h batt_meas_evt) s))
             in if m_ble_bas_configured s
                then
                  let err_code = bas_battery_level_update_ret e;
                      s = log_call (Ble_Bas_Battery_Level_Update battery_level_percent) s
                  in if err_code \<noteq> NRF_SUCCESS \<and> err_code \<noteq> NRF_ERROR_INVALID_STATE
                          \<and> err_code \<noteq> BLE_ERROR_GATTS_SYS_ATTR_MISSING
                     then Inl (App_Error err_code)
                     else dispatch s
                else dispatch (s\<lparr>m_initial_batt_level_percent := battery_level_percent\<rparr>))"

subsection \<open>Interrupt handler\<close>

text \<open>
  The event of the driver. \<open>NRF_DRV_SAADC_EVT_DONE x\<close> carries the first sample of
  the result buffer, a \<open>nrf_saadc_value_t\<close> (signed 16 bit), which the call at
  line 247 converts to \<open>uint32_t\<close>.
\<close>

datatype nrf_drv_saadc_evt =
    NRF_DRV_SAADC_EVT_DONE "16 word"
  | NRF_DRV_SAADC_EVT_LIMIT
  | NRF_DRV_SAADC_EVT_CALIBRATEDONE

text \<open>\<open>saadc_event_handler_interrupt\<close> (lines 236-255), run in interrupt context.\<close>

definition saadc_event_handler_interrupt :: "env \<Rightarrow> nrf_drv_saadc_evt \<Rightarrow> state \<Rightarrow> fault + state" where
  "saadc_event_handler_interrupt e p_event s =
     (case p_event of
        NRF_DRV_SAADC_EVT_CALIBRATEDONE \<Rightarrow>
          Inr (nrf_drv_saadc_uninit (s\<lparr>m_adc_cal_in_progress := False\<rparr>))
      | NRF_DRV_SAADC_EVT_DONE x \<Rightarrow>
          (case adc_to_batt_voltage e (scast x) s of
             Inl f \<Rightarrow> Inl f
           | Inr (err_code, voltage, s) \<Rightarrow>
               if err_code \<noteq> NRF_SUCCESS then Inl (App_Error err_code)
               else
                 (case app_sched_event_put e voltage s of
                    (err_code, s) \<Rightarrow>
                      if err_code \<noteq> NRF_SUCCESS then Inl (App_Error err_code)
                      else Inr (nrf_drv_saadc_uninit s)))
      | NRF_DRV_SAADC_EVT_LIMIT \<Rightarrow> Inr (nrf_drv_saadc_uninit s))"

subsection \<open>Sampling\<close>

text \<open>\<open>saadc_init\<close> (lines 259-283).\<close>

definition saadc_init :: "env \<Rightarrow> state \<Rightarrow> fault + (ret_code \<times> state)" where
  "saadc_init e s =
     (case nrf_drv_saadc_init s of
        (err_code, s) \<Rightarrow>
          if err_code \<noteq> NRF_SUCCESS then Inl (App_Error err_code)
          else
            (case nrf_drv_saadc_channel_init e s of
               (err_code, s) \<Rightarrow>
                 if err_code \<noteq> NRF_SUCCESS then Inl (App_Error err_code)
                 else
                   (case nrf_drv_saadc_buffer_convert e s of
                      (err_code, s) \<Rightarrow>
                        if err_code \<noteq> NRF_SUCCESS then Inl (App_Error err_code)
                        else Inr (M_BATT_STATUS_CODE_SUCCESS, s))))"

text \<open>\<open>app_timer_periodic_handler\<close> (lines 310-323).\<close>

definition app_timer_periodic_handler :: "env \<Rightarrow> state \<Rightarrow> fault + state" where
  "app_timer_periodic_handler e s =
     (case saadc_init e s of
        Inl f \<Rightarrow> Inl f
      | Inr (err_code, s) \<Rightarrow>
          if err_code = NRF_ERROR_INVALID_STATE then Inr s
          else if err_code \<noteq> NRF_SUCCESS then Inl (App_Error err_code)
          else
            (case nrf_drv_saadc_sample e s of
               (err_code, s) \<Rightarrow>
                 if err_code \<noteq> NRF_SUCCESS then Inl (App_Error err_code)
                 else Inr s))"

subsection \<open>Calibration\<close>

text \<open>
  The loop of \<open>saadc_calibrate\<close> (lines 300-303) has an empty body: only an
  interrupt can change \<open>m_adc_cal_in_progress\<close>. \<open>irq n\<close> is the SAADC event, if
  any, whose interrupt is served between the \<open>n\<close>-th and the next evaluation of the
  loop condition. A loop that never ends is \<open>None\<close>.
\<close>

partial_function (option) cal_wait ::
  "env \<Rightarrow> (nat \<Rightarrow> nrf_drv_saadc_evt option) \<Rightarrow> nat \<Rightarrow> state \<Rightarrow> (fault + state) option" where
  "cal_wait e irq n s =
     (if m_adc_cal_in_progress s
      then (case irq n of
              None \<Rightarrow> cal_wait e irq (Suc n) s
            | Some ev \<Rightarrow>
                (case saadc_event_handler_interrupt e ev s of
                   Inl f \<Rightarrow> Some (Inl f)
                 | Inr s' \<Rightarrow> cal_wait e irq (Suc n) s'))
      else Some (Inr s))"

text \<open>\<open>saadc_calibrate\<close> (lines 287-306).\<close>

definition saadc_calibrate ::
  "env \<Rightarrow> (nat \<Rightarrow> nrf_drv_saadc_evt option) \<Rightarrow> state \<Rightarrow> (fault + (ret_code \<times> state)) option" where
  "saadc_calibrate e irq s =
     (case nrf_drv_saadc_init s of
        (err_code, s) \<Rightarrow>
          if err_code \<noteq> NRF_SUCCESS then Some (Inl (App_Error err_code))
          else
            (case nrf_drv_saadc_calibrate_offset e (s\<lparr>m_adc_cal_in_progress := True\<rparr>) of
               (err_code, s) \<Rightarrow>
                 if err_code \<noteq> NRF_SUCCESS then Some (Inl (App_Error err_code))
                 else
                   (case cal_wait e irq 0 s of
                      None \<Rightarrow> None
                    | Some (Inl f) \<Rightarrow> Some (Inl f)
                    | Some (Inr s) \<Rightarrow> Some (Inr (M_BATT_STATUS_CODE_SUCCESS, s)))))"

subsection \<open>Module interface\<close>

text \<open>
  \<open>battery_service_init\<close> (lines 331-357), the callback through which the battery
  service becomes active.
\<close>

definition battery_service_init :: "env \<Rightarrow> state \<Rightarrow> fault + (ret_code \<times> state)" where
  "battery_service_init e s =
     (let s = log_call (Ble_Bas_Init (m_initial_batt_level_percent s)) s
      in if bas_init_ret e \<noteq> NRF_SUCCESS then Inl (App_Error (bas_init_ret e))
         else Inr (NRF_SUCCESS, s\<lparr>m_ble_bas_configured := True\<rparr>))"

text \<open>\<open>m_batt_meas_enable\<close> (lines 359-386).\<close>

definition m_batt_meas_enable :: "env \<Rightarrow> 32 word \<Rightarrow> state \<Rightarrow> fault + (ret_code \<times> state)" where
  "m_batt_meas_enable e meas_interval_ms s =
     (if meas_interval_ms < MEAS_INTERVAL_LOW_LIMIT_MS e
      then Inr (M_BATT_STATUS_CODE_INVALID_PARAM, s)
      else
        let s = (if batt_mon_en_pin_used (m_batt_meas_param s)
                 then log_call Nrf_Drv_Gpiote_Out_Set s else s)
        in case app_timer_periodic_handler e s of
             Inl f \<Rightarrow> Inl f
           | Inr s \<Rightarrow>
               let s = log_call App_Timer_Create s
               in if timer_create_ret e \<noteq> NRF_SUCCESS then Inl (App_Error (timer_create_ret e))
                  else
                    let s = log_call (App_Timer_Start meas_interval_ms) s
                    in if timer_start_ret e \<noteq> NRF_SUCCESS
                       then Inl (App_Error (timer_start_ret e))
                       else Inr (M_BATT_STATUS_CODE_SUCCESS, s\<lparr>timer_running := True\<rparr>))"

text \<open>\<open>m_batt_meas_disable\<close> (lines 389-402).\<close>

definition m_batt_meas_disable :: "env \<Rightarrow> state \<Rightarrow> fault + (ret_code \<times> state)" where
  "m_batt_meas_disable e s =
     (let s = (if batt_mon_en_pin_used (m_batt_meas_param s)
               then log_call Nrf_Drv_Gpiote_Out_Clear s else s);
          s = log_call App_Timer_Stop s
      in if timer_stop_ret e \<noteq> NRF_SUCCESS then Inl (App_Error (timer_stop_ret e))
         else Inr (M_BATT_STATUS_CODE_SUCCESS, s\<lparr>timer_running := False\<rparr>))"

text \<open>
  \<open>m_batt_meas_init\<close> (lines 404-442). \<open>p_handle\<close> is only tested for null and
  written to; the model keeps whether it is non-null.
\<close>

definition m_batt_meas_init ::
  "env \<Rightarrow> (nat \<Rightarrow> nrf_drv_saadc_evt option) \<Rightarrow> bool \<Rightarrow> batt_meas_init option \<Rightarrow> state
     \<Rightarrow> (fault + (ret_code \<times> state)) option" where
  "m_batt_meas_init e irq p_handle p_batt_meas_init s =
     (if \<not> p_handle then Some (Inr (NRF_ERROR_NULL, s))
      else case p_batt_meas_init of
        None \<Rightarrow> Some (Inr (NRF_ERROR_NULL, s))
      | Some i \<Rightarrow>
          (case param_check p_batt_meas_init s of
             (err_code, s) \<Rightarrow>
               if err_code \<noteq> NRF_SUCCESS then Some (Inl (App_Error err_code))
               else
                 let s = s\<lparr>m_evt_handler := evt_handler i,
                           m_batt_meas_param := batt_meas_param i\<rparr>;
                     gpiote = (if batt_mon_en_pin_used (m_batt_meas_param s)
                               then (gpiote_out_init_ret e, log_call Nrf_Drv_Gpiote_Out_Init s)
                               else (NRF_SUCCESS, s))
                 in case gpiote of
                      (err_code, s) \<Rightarrow>
                        if err_code \<noteq> NRF_SUCCESS then Some (Inl (App_Error err_code))
                        else
                          (case saadc_calibrate e irq (log_call Nrf_Gpio_Cfg_Input s) of
                             None \<Rightarrow> None
                           | Some (Inl f) \<Rightarrow> Some (Inl f)
                           | Some (Inr (err_code, s)) \<Rightarrow>
                               if err_code \<noteq> NRF_SUCCESS then Some (Inl (App_Error err_code))
                               else Some (Inr (M_BATT_STATUS_CODE_SUCCESS, s)))))"

subsection \<open>The module at work\<close>

text \<open>
  Modelled from the spec: the scheduler's main-context loop is not part of the
  sources. It takes the queued events in order and calls their handler, which for
  this module is always \<open>batt_event_handler_adc\<close>.
\<close>

fun sched_run :: "env \<Rightarrow> 16 word list \<Rightarrow> state \<Rightarrow> fault + state" where
  "sched_run e [] s = Inr s"
| "sched_run e (d # ds) s =
     (case batt_event_handler_adc e d s of
        Inl f \<Rightarrow> Inl f
      | Inr s' \<Rightarrow> sched_run e ds s')"

definition app_sched_execute :: "env \<Rightarrow> state \<Rightarrow> fault + state" where
  "app_sched_execute e s = sched_run e (sched_queue s) (s\<lparr>sched_queue := []\<rparr>)"

text \<open>
  What can happen to the module once it is initialised: the periodic timer fires,
  the SAADC interrupt is served, or the main loop runs the scheduler.
\<close>

datatype sys_event =
    Timer_Tick
  | Saadc_Irq nrf_drv_saadc_evt
  | Sched_Execute

fun step :: "env \<Rightarrow> sys_event \<Rightarrow> state \<Rightarrow> fault + state" where
  "step e Timer_Tick s = app_timer_periodic_handler e s"
| "step e (Saadc_Irq ev) s = saadc_event_handler_interrupt e ev s"
| "step e Sched_Execute s = app_sched_execute e s"

fun run :: "env \<Rightarrow> sys_event list \<Rightarrow> state \<Rightarrow> fault + state" where
  "run e [] s = Inr s"
| "run e (x # xs) s =
     (case step e x s of
        Inl f \<Rightarrow> Inl f
      | Inr s' \<Rightarrow> run e xs s')"

text \<open>The events handed to the application handler, in order.\<close>

fun emitted :: "call list \<Rightarrow> m_batt_meas_event list" where
  "emitted [] = []"
| "emitted (Evt_Handler h ev # cs) = ev # emitted cs"
| "emitted (c # cs) = emitted cs"

text \<open>
  The work that belongs to the deferred handler: the state of charge lookup, the
  update of the battery service, the call of the application handler.
\<close>

fun deferred_work :: "call \<Rightarrow> bool" where
  "deferred_work (Batt_Voltage_To_Percent v) = True"
| "deferred_work (Ble_Bas_Battery_Level_Update p) = True"
| "deferred_work (Evt_Handler h ev) = True"
| "deferred_work c = False"

text \<open>The statics as the C start-up code leaves them, with every collaborator idle.\<close>

definition state0 :: state where
  "state0 =
     \<lparr>m_evt_handler = None,
      m_batt_meas_param =
        \<lparr>batt_mon_en_pin_used = False, batt_voltage_limit_low = 0, batt_voltage_limit_full = 0,
         state_of_charge =
           \<lparr>num_elements = 0, first_element_mv = 0, delta_mv = 0, voltage_to_soc = []\<rparr>,
         voltage_divider = \<lparr>r_1_ohm = 0, r_2_ohm = 0\<rparr>\<rparr>,
      m_battery_divider_factor = Factor_Zero,
      m_adc_cal_in_progress = False,
      m_ble_bas_configured = False,
      m_initial_batt_level_percent = 0xFF,
      saadc_initialized = False,
      sched_queue = [],
      timer_running = False,
      calls = []\<rparr>"

text \<open>Reading the call log and the emitted events off a result.\<close>

definition calls_of :: "fault + state \<Rightarrow> call list" where
  "calls_of r = (case r of Inl f \<Rightarrow> [] | Inr s \<Rightarrow> calls s)"

definition events_of :: "fault + state \<Rightarrow> m_batt_meas_event list" where
  "events_of r = emitted (calls_of r)"

subsection \<open>Example configurations\<close>

text \<open>
  The table and the thresholds of the testable properties of the specification:
  eleven levels from 3000 mV in steps of 100 mV, low limit 3300 mV, full limit
  4100 mV, no external divider.
\<close>

definition soc_example :: state_of_charge where
  "soc_example =
     \<lparr>num_elements = 11, first_element_mv = 3000, delta_mv = 100,
      voltage_to_soc = [0, 10, 20, 30, 40, 50, 60, 70, 80, 90, 100]\<rparr>"

text \<open>The same levels in steps of 1 mV from 0 mV.\<close>

definition soc_fine :: state_of_charge where
  "soc_fine = soc_example\<lparr>first_element_mv := 0, delta_mv := 1\<rparr>"

definition param_example :: batt_meas_param where
  "param_example =
     \<lparr>batt_mon_en_pin_used = False, batt_voltage_limit_low = 3300,
      batt_voltage_limit_full = 4100, state_of_charge = soc_example,
      voltage_divider = \<lparr>r_1_ohm = 0, r_2_ohm = 0\<rparr>\<rparr>"

text \<open>Both limits at 3300 mV: a configuration that \<open>param_check\<close> accepts.\<close>

definition param_equal_limits :: batt_meas_param where
  "param_equal_limits = param_example\<lparr>batt_voltage_limit_full := 3300\<rparr>"

definition init_example :: batt_meas_init where
  "init_example = \<lparr>evt_handler = Some 1, batt_meas_param = param_example\<rparr>"

text \<open>
  An environment in which every SDK call succeeds. Its \<open>float_millivolts\<close> is one
  possible value of the parameter: the exact quotient for gain 1, 0.6 V reference
  and 10 bits, without divider.
\<close>

definition env_example :: env where
  "env_example =
     \<lparr>float_millivolts = (\<lambda>gain factor adc_val. word_of_nat (unat adc_val * 600 div 1024)),
      saadc_channel_init_ret = NRF_SUCCESS,
      saadc_buffer_convert_ret = NRF_SUCCESS,
      saadc_sample_ret = NRF_SUCCESS,
      saadc_calibrate_offset_ret = NRF_SUCCESS,
      sched_event_put_ret = NRF_SUCCESS,
      bas_battery_level_update_ret = NRF_SUCCESS,
      bas_init_ret = NRF_SUCCESS,
      gpiote_out_init_ret = NRF_SUCCESS,
      timer_create_ret = NRF_SUCCESS,
      timer_start_ret = NRF_SUCCESS,
      timer_stop_ret = NRF_SUCCESS,
      MEAS_INTERVAL_LOW_LIMIT_MS = 100\<rparr>"

text \<open>The module after a successful initialisation with \<open>init_example\<close>, log cleared.\<close>

definition state_ready :: state where
  "state_ready =
     state0\<lparr>m_evt_handler := Some 1, m_batt_meas_param := param_example,
            m_battery_divider_factor := Factor_One\<rparr>"

text \<open>The same configuration with a table step of 0 mV.\<close>

definition init_zero_delta :: batt_meas_init where
  "init_zero_delta =
     init_example\<lparr>batt_meas_param := param_example\<lparr>state_of_charge := soc_example\<lparr>delta_mv := 0\<rparr>\<rparr>\<rparr>"

text \<open>
  Three configurations that \<open>param_check\<close> rejects: one resistor zero; both
  resistors 10 kOhm and the full limit below the low limit; a null handler together
  with one resistor zero.
\<close>

definition init_bad_divider :: batt_meas_init where
  "init_bad_divider =
     init_example\<lparr>batt_meas_param :=
       param_example\<lparr>voltage_divider := \<lparr>r_1_ohm = 0, r_2_ohm = 10000\<rparr>\<rparr>\<rparr>"

definition init_bad_limits :: batt_meas_init where
  "init_bad_limits =
     init_example\<lparr>batt_meas_param :=
       param_example\<lparr>voltage_divider := \<lparr>r_1_ohm = 10000, r_2_ohm = 10000\<rparr>,
                      batt_voltage_limit_low := 4100, batt_voltage_limit_full := 3300\<rparr>\<rparr>"

definition init_null_handler :: batt_meas_init where
  "init_null_handler = init_bad_divider\<lparr>evt_handler := None\<rparr>"

text \<open>A divider of two 10 kOhm resistors.\<close>

definition init_divider :: batt_meas_init where
  "init_divider =
     init_example\<lparr>batt_meas_param :=
       param_example\<lparr>voltage_divider := \<lparr>r_1_ohm = 10000, r_2_ohm = 10000\<rparr>\<rparr>\<rparr>"

text \<open>
  Interrupt schedules for the calibration loop: no SAADC interrupt at all, and the
  calibration-done interrupt after \<open>k\<close> evaluations of the loop condition.
\<close>

definition irq_never :: "nat \<Rightarrow> nrf_drv_saadc_evt option" where
  "irq_never = (\<lambda>n. None)"

definition irq_after :: "nat \<Rightarrow> nat \<Rightarrow> nrf_drv_saadc_evt option" where
  "irq_after k = (\<lambda>n. if n = k then Some NRF_DRV_SAADC_EVT_CALIBRATEDONE else None)"

text \<open>
  One measurement cycle: the timer fires, the conversion completes with the sample
  \<open>x\<close>, the main loop runs the scheduler.
\<close>

definition measurement_cycle :: "16 word \<Rightarrow> sys_event list" where
  "measurement_cycle x = [Timer_Tick, Saadc_Irq (NRF_DRV_SAADC_EVT_DONE x), Sched_Execute]"

section \<open>Properties\<close>

lemmas example_defs =
  state_ready_def state0_def param_example_def param_equal_limits_def soc_example_def
  soc_fine_def env_example_def init_example_def init_zero_delta_def init_bad_divider_def
  init_bad_limits_def init_null_handler_def init_divider_def

lemmas handler_defs =
  batt_event_handler_adc_def batt_voltage_to_percent_def log_call_def to_int16_def c_div_def

subsection \<open>State of charge lookup\<close>

lemma to_int16_id: "- 32768 \<le> i \<Longrightarrow> i \<le> 32767 \<Longrightarrow> to_int16 i = i"
  unfolding to_int16_def
  by (simp add: sint_sbintrunc' signed_take_bit_int_eq_self)

lemma c_div_nonneg: "0 \<le> a \<Longrightarrow> 0 < b \<Longrightarrow> c_div a b = a div b"
  by (cases "a = 0") (simp_all add: c_div_def)

lemma c_div_neg: "a < 0 \<Longrightarrow> 0 < b \<Longrightarrow> c_div a b = - ((- a) div b)"
  by (simp add: c_div_def)

lemma c_div_neg_bounds:
  assumes "a < 0" "0 < b"
  shows "a div b \<le> c_div a b" and "c_div a b \<le> 0" and "a div b < 0"
proof -
  have "a div b = (if (- a) mod b = 0 then - ((- a) div b) else - ((- a) div b) - 1)"
    using zdiv_zminus1_eq_if [of b "- a"] assms by simp
  then show "a div b \<le> c_div a b"
    using assms by (simp add: c_div_neg split: if_splits)
  have "0 \<le> (- a) div b"
    using assms by (simp add: pos_imp_zdiv_nonneg_iff)
  then show "c_div a b \<le> 0"
    using assms by (simp add: c_div_neg)
  show "a div b < 0"
    using assms by (rule div_neg_pos_less0)
qed

text \<open>
  Where the quotient fits an \<open>int16_t\<close>, the C function computes the lookup of the
  specification: truncation and floor differ only for negative quotients, which
  both clamp to index 0.
\<close>

lemma batt_voltage_to_percent_in_range:
  assumes d: "delta_mv (state_of_charge p) \<noteq> 0"
    and n1: "num_elements (state_of_charge p) \<noteq> 0"
    and len: "unat (num_elements (state_of_charge p)) \<le> length (voltage_to_soc (state_of_charge p))"
    and hi: "(uint v - uint (first_element_mv (state_of_charge p)))
               div uint (delta_mv (state_of_charge p)) \<le> 32767"
    and lo: "- 32768 \<le> (uint v - uint (first_element_mv (state_of_charge p)))
               div uint (delta_mv (state_of_charge p))"
  shows "batt_voltage_to_percent p v = Inr (voltage_to_percent_spec (state_of_charge p) v)"
proof -
  define a where "a = uint v - uint (first_element_mv (state_of_charge p))"
  define b where "b = uint (delta_mv (state_of_charge p))"
  define n where "n = uint (num_elements (state_of_charge p))"
  define xs where "xs = voltage_to_soc (state_of_charge p)"
  have b: "0 < b"
    using d unfolding b_def by (simp add: word_neq_0_conv word_less_def)
  have n: "1 \<le> n"
    using n1 unfolding n_def
    by (metis add_0 not_less uint_0_iff zle_add1_eq_le uint_ge_0 order_le_less)
  have nlen: "nat n \<le> length xs"
    using len unfolding n_def xs_def by simp
  have xs: "0 < length xs"
    using n nlen by linarith
  have code: "batt_voltage_to_percent p v =
    (let e0 = to_int16 (c_div a b);
         e1 = (if e0 < 0 then 0 else if e0 > n - 1 then to_int16 (n - 1) else e0)
     in if 0 \<le> e1 \<and> nat e1 < length xs then Inr (xs ! nat e1) else Inl Out_Of_Bounds)"
    using d by (simp add: batt_voltage_to_percent_def Let_def a_def b_def n_def xs_def)
  have spec: "voltage_to_percent_spec (state_of_charge p) v
                = xs ! nat (max 0 (min (n - 1) (a div b)))"
    by (simp add: voltage_to_percent_spec_def Let_def a_def b_def n_def xs_def)
  have hi': "a div b \<le> 32767" and lo': "- 32768 \<le> a div b"
    using hi lo by (simp_all add: a_def b_def)
  show ?thesis
  proof (cases "0 \<le> a")
    case True
    then have q: "c_div a b = a div b" and q0: "0 \<le> a div b"
      using b by (simp_all add: c_div_nonneg pos_imp_zdiv_nonneg_iff)
    have e0: "to_int16 (c_div a b) = a div b"
      using q q0 hi' by (simp add: to_int16_id)
    show ?thesis
    proof (cases "a div b > n - 1")
      case True
      then have "to_int16 (n - 1) = n - 1"
        using n hi' by (simp add: to_int16_id)
      then show ?thesis
        using True q0 n nlen e0 by (simp add: code spec Let_def min_def max_def)
    next
      case False
      then show ?thesis
        using q0 n nlen e0 by (simp add: code spec Let_def min_def max_def)
    qed
  next
    case False
    then have neg: "a < 0" by simp
    note bs = c_div_neg_bounds [OF neg b]
    have e0: "to_int16 (c_div a b) = c_div a b"
      using bs lo' by (simp add: to_int16_id)
    show ?thesis
      using bs n xs e0 by (simp add: code spec Let_def min_def max_def)
  qed
qed

text \<open>
  The three lookups of the specification's example table: 2500 mV and 5000 mV are
  clamped to the first and the last level, 3050 mV falls into the first bucket.
\<close>

lemma batt_voltage_to_percent_examples:
  "batt_voltage_to_percent param_example 2500 = Inr 0"
  "batt_voltage_to_percent param_example 5000 = Inr 100"
  "batt_voltage_to_percent param_example 3050 = Inr 0"
  by (simp_all add: batt_voltage_to_percent_def param_example_def soc_example_def
        to_int16_def c_div_def)

text \<open>
  C5. The lookup is claimed to clamp the index to \<open>[0, num_elements - 1]\<close> for every
  16 bit voltage and every table with a positive step and at least one element. With
  a step of 1 mV from 0 mV, the voltage 40000 mV has the quotient 40000, which does
  not fit the \<open>int16_t\<close> that stores it: the stored index is negative, and the
  function returns the first level (0 percent) where the specified lookup returns
  the last (100 percent).
\<close>

theorem batt_voltage_to_percent_int16_overflow:
  "batt_voltage_to_percent (param_example\<lparr>state_of_charge := soc_fine\<rparr>) 40000 = Inr 0
   \<and> voltage_to_percent_spec soc_fine 40000 = 100
   \<and> delta_mv soc_fine \<noteq> 0 \<and> num_elements soc_fine \<noteq> 0
   \<and> unat (num_elements soc_fine) = length (voltage_to_soc soc_fine)"
  by (simp add: batt_voltage_to_percent_def voltage_to_percent_spec_def param_example_def
        soc_example_def soc_fine_def to_int16_def c_div_def)

subsection \<open>Events of the deferred handler\<close>

lemma emitted_append [simp]: "emitted (xs @ ys) = emitted xs @ emitted ys"
  by (induction xs rule: emitted.induct) simp_all

text \<open>A call of the deferred handler that returns has emitted exactly this event.\<close>

lemma batt_event_handler_adc_emits:
  assumes "batt_event_handler_adc e v s = Inr s'"
  shows "\<exists>pct. batt_voltage_to_percent (m_batt_meas_param s) v = Inr pct \<and>
    emitted (calls s') = emitted (calls s) @
     [\<lparr>type = (if v \<le> batt_voltage_limit_low (m_batt_meas_param s)
                then M_BATT_MEAS_EVENT_LOW
                else if v \<ge> batt_voltage_limit_full (m_batt_meas_param s)
                then M_BATT_MEAS_EVENT_FULL
                else M_BATT_MEAS_EVENT_DATA),
       voltage_mv = v, level_percent = pct, valid_voltage = True\<rparr>]"
  using assms
  by (auto simp: batt_event_handler_adc_def Let_def log_call_def
           split: sum.splits if_splits option.splits)

lemma events_of_Inr: "r = Inr s \<Longrightarrow> events_of r = emitted (calls s)"
  by (simp add: events_of_def calls_of_def)

text \<open>
  C8. The classifier decides the event type in the order of the specification:
  \<open>LOW\<close> when the voltage is at most the low limit; \<open>FULL\<close> when it is at least the
  full limit; \<open>DATA\<close> otherwise. The tests are a cascade (lines 197-208), so the
  \<open>LOW\<close> test comes first.
\<close>

theorem classification_cascade:
  assumes "batt_event_handler_adc e v s = Inr s'"
  shows "\<exists>ev. emitted (calls s') = emitted (calls s) @ [ev] \<and> voltage_mv ev = v \<and>
    (v \<le> batt_voltage_limit_low (m_batt_meas_param s)
        \<longrightarrow> type ev = M_BATT_MEAS_EVENT_LOW) \<and>
    (batt_voltage_limit_low (m_batt_meas_param s) < v
      \<and> batt_voltage_limit_full (m_batt_meas_param s) \<le> v
        \<longrightarrow> type ev = M_BATT_MEAS_EVENT_FULL) \<and>
    (batt_voltage_limit_low (m_batt_meas_param s) < v
      \<and> v < batt_voltage_limit_full (m_batt_meas_param s)
        \<longrightarrow> type ev = M_BATT_MEAS_EVENT_DATA)"
  using batt_event_handler_adc_emits [OF assms] by auto

text \<open>
  With the limits 3300 mV and 4100 mV: 3300 mV is \<open>LOW\<close>, 4100 mV is \<open>FULL\<close>,
  3700 mV is \<open>DATA\<close>.
\<close>

theorem classification_cascade_witness:
  "map type (events_of (batt_event_handler_adc env_example 3300 state_ready))
     = [M_BATT_MEAS_EVENT_LOW]
   \<and> map type (events_of (batt_event_handler_adc env_example 4100 state_ready))
     = [M_BATT_MEAS_EVENT_FULL]
   \<and> map type (events_of (batt_event_handler_adc env_example 3700 state_ready))
     = [M_BATT_MEAS_EVENT_DATA]"
proof -
  have e: "emitted (calls state_ready) = []"
    and lo: "batt_voltage_limit_low (m_batt_meas_param state_ready) = 3300"
    and hi: "batt_voltage_limit_full (m_batt_meas_param state_ready) = 4100"
    by (simp_all add: state_ready_def state0_def param_example_def)
  obtain s1 where h1: "batt_event_handler_adc env_example 3300 state_ready = Inr s1"
    by (simp add: handler_defs example_defs)
  obtain s2 where h2: "batt_event_handler_adc env_example 4100 state_ready = Inr s2"
    by (simp add: handler_defs example_defs)
  obtain s3 where h3: "batt_event_handler_adc env_example 3700 state_ready = Inr s3"
    by (simp add: handler_defs example_defs)
  have "map type (emitted (calls s1)) = [M_BATT_MEAS_EVENT_LOW]"
    using classification_cascade [OF h1] by (auto simp: e lo hi)
  moreover have "map type (emitted (calls s2)) = [M_BATT_MEAS_EVENT_FULL]"
    using classification_cascade [OF h2] by (auto simp: e lo hi)
  moreover have "map type (emitted (calls s3)) = [M_BATT_MEAS_EVENT_DATA]"
    using classification_cascade [OF h3] by (auto simp: e lo hi)
  ultimately show ?thesis
    by (simp add: h1 h2 h3 events_of_Inr)
qed

text \<open>
  The one voltage that meets both tests, possible only when both limits are equal
  (which validation accepts), is \<open>LOW\<close>: the first test of the cascade decides.
\<close>

lemma classification_equal_limits:
  "fst (param_check (Some (init_example\<lparr>batt_meas_param := param_equal_limits\<rparr>)) state0)
     = M_BATT_STATUS_CODE_SUCCESS
   \<and> batt_voltage_limit_low param_equal_limits = batt_voltage_limit_full param_equal_limits
   \<and> map type (events_of (batt_event_handler_adc env_example 3300
        (state_ready\<lparr>m_batt_meas_param := param_equal_limits\<rparr>))) = [M_BATT_MEAS_EVENT_LOW]"
  by (simp add: events_of_def calls_of_def handler_defs param_check_def example_defs)

subsection \<open>Interrupt handler and calibration loop\<close>

lemmas irq_defs =
  saadc_event_handler_interrupt_def nrf_drv_saadc_uninit_def log_call_def
  adc_to_batt_voltage_def app_sched_event_put_def ADC_GAIN_def

lemma cal_wait_invariant:
  assumes run: "cal_wait e irq n s = Some (Inr s')"
    and inv: "I s"
    and step: "\<And>ev s s1. I s \<Longrightarrow> saadc_event_handler_interrupt e ev s = Inr s1 \<Longrightarrow> I s1"
  shows "I s' \<and> \<not> m_adc_cal_in_progress s'"
proof -
  define Q where "Q = (\<lambda>(e'::env) (irq::nat \<Rightarrow> nrf_drv_saadc_evt option) (n::nat) (s::state)
                          (y::fault + state).
              e' = e \<longrightarrow> I s \<longrightarrow> (\<forall>s'. y = Inr s' \<longrightarrow> I s' \<and> \<not> m_adc_cal_in_progress s'))"
  have "Q e irq n s (Inr s')"
  proof (rule cal_wait.raw_induct [where P = Q, OF _ run])
    fix cw e' irq n s y
    assume ih: "\<And>e irq n s y. cw e irq n s = Some y \<Longrightarrow> Q e irq n s y"
      and body: "(if m_adc_cal_in_progress s
          then case irq n of None \<Rightarrow> cw e' irq (Suc n) s
               | Some ev \<Rightarrow>
                   (case saadc_event_handler_interrupt e' ev s of
                      Inl f \<Rightarrow> Some (Inl f) | Inr s' \<Rightarrow> cw e' irq (Suc n) s')
          else Some (Inr s)) = Some y"
    show "Q e' irq n s y"
      unfolding Q_def
    proof (intro impI allI)
      fix s'
      assume e': "e' = e" and inv: "I s" and y: "y = Inr s'"
      show "I s' \<and> \<not> m_adc_cal_in_progress s'"
      proof (cases "m_adc_cal_in_progress s")
        case False
        with body y inv show ?thesis by auto
      next
        case True
        show ?thesis
        proof (cases "irq n")
          case None
          with True body have "cw e' irq (Suc n) s = Some y" by simp
          from ih [OF this] e' inv y show ?thesis by (simp add: Q_def)
        next
          case (Some ev)
          show ?thesis
          proof (cases "saadc_event_handler_interrupt e' ev s")
            case (Inl f)
            with True Some body y show ?thesis by auto
          next
            case (Inr s1)
            with True Some body have run1: "cw e' irq (Suc n) s1 = Some y" by simp
            from Inr e' have "saadc_event_handler_interrupt e ev s = Inr s1" by simp
            from step [OF inv this] have "I s1" .
            with ih [OF run1] e' y show ?thesis by (simp add: Q_def)
          qed
        qed
      qed
    qed
  qed
  with inv show ?thesis by (simp add: Q_def)
qed

lemma irq_handler_done:
  "saadc_event_handler_interrupt e (NRF_DRV_SAADC_EVT_DONE x) s =
     (let v = round_to_tens (float_millivolts e (1, 1) (m_battery_divider_factor s) (scast x))
      in if sched_event_put_ret e = NRF_SUCCESS
         then Inr (s\<lparr>saadc_initialized := False,
                      sched_queue := sched_queue s @ [v],
                      calls := calls s @ [Adc_To_Batt_Voltage (scast x), App_Sched_Event_Put v,
                                          Nrf_Drv_Saadc_Uninit]\<rparr>)
         else Inl (App_Error (sched_event_put_ret e)))"
  by (simp add: irq_defs Let_def)

lemma irq_handler_limit:
  "saadc_event_handler_interrupt e NRF_DRV_SAADC_EVT_LIMIT s =
     Inr (s\<lparr>saadc_initialized := False, calls := calls s @ [Nrf_Drv_Saadc_Uninit]\<rparr>)"
  by (simp add: irq_defs)

lemma irq_handler_calibratedone:
  "saadc_event_handler_interrupt e NRF_DRV_SAADC_EVT_CALIBRATEDONE s =
     Inr (s\<lparr>m_adc_cal_in_progress := False, saadc_initialized := False,
             calls := calls s @ [Nrf_Drv_Saadc_Uninit]\<rparr>)"
  by (simp add: irq_defs)

lemmas irq_handler_simps = irq_handler_done irq_handler_limit irq_handler_calibratedone

lemma irq_handler_param:
  "saadc_event_handler_interrupt e ev s = Inr s' \<Longrightarrow>
     m_batt_meas_param s' = m_batt_meas_param s \<and> m_evt_handler s' = m_evt_handler s"
  by (cases ev) (auto simp: irq_handler_simps Let_def split: if_splits)

lemma irq_handler_releases:
  "saadc_event_handler_interrupt e ev s = Inr s' \<Longrightarrow> \<not> saadc_initialized s'"
  by (cases ev) (auto simp: irq_handler_simps Let_def split: if_splits)

lemma irq_handler_keeps_flag:
  "ev \<noteq> NRF_DRV_SAADC_EVT_CALIBRATEDONE \<Longrightarrow> saadc_event_handler_interrupt e ev s = Inr s' \<Longrightarrow>
     m_adc_cal_in_progress s' = m_adc_cal_in_progress s"
  by (cases ev) (auto simp: irq_handler_simps Let_def split: if_splits)

lemma irq_handler_returns:
  "sched_event_put_ret e = NRF_SUCCESS \<Longrightarrow> \<exists>s'. saadc_event_handler_interrupt e ev s = Inr s'"
  by (cases ev) (simp_all add: irq_handler_simps Let_def)

lemma cal_wait_param:
  assumes "cal_wait e irq n s = Some (Inr s')"
  shows "m_batt_meas_param s' = m_batt_meas_param s \<and> m_evt_handler s' = m_evt_handler s"
proof -
  define I where "I = (\<lambda>t::state. m_batt_meas_param t = m_batt_meas_param s
                                 \<and> m_evt_handler t = m_evt_handler s)"
  have "I s' \<and> \<not> m_adc_cal_in_progress s'"
  proof (rule cal_wait_invariant [OF assms])
    show "I s" by (simp add: I_def)
  next
    fix ev t t1
    assume "I t" and "saadc_event_handler_interrupt e ev t = Inr t1"
    then show "I t1"
      using irq_handler_param [of e ev t t1] by (simp add: I_def)
  qed
  then show ?thesis by (simp add: I_def)
qed

text \<open>Without the calibration-done event the loop does not return normally.\<close>

lemma cal_wait_needs_calibratedone:
  assumes run: "cal_wait e irq n s = Some y"
    and flag: "m_adc_cal_in_progress s"
    and never: "\<forall>k\<ge>n. irq k \<noteq> Some NRF_DRV_SAADC_EVT_CALIBRATEDONE"
  shows "\<exists>f. y = Inl f"
proof -
  define Q where "Q = (\<lambda>(e::env) (irq::nat \<Rightarrow> nrf_drv_saadc_evt option) (n::nat) (s::state)
                          (y::fault + state).
     m_adc_cal_in_progress s \<longrightarrow> (\<forall>k\<ge>n. irq k \<noteq> Some NRF_DRV_SAADC_EVT_CALIBRATEDONE)
       \<longrightarrow> (\<exists>f. y = Inl f))"
  have "Q e irq n s y"
  proof (rule cal_wait.raw_induct [where P = Q, OF _ run])
    fix cw e irq n s y
    assume ih: "\<And>e irq n s y. cw e irq n s = Some y \<Longrightarrow> Q e irq n s y"
      and body: "(if m_adc_cal_in_progress s
          then case irq n of None \<Rightarrow> cw e irq (Suc n) s
               | Some ev \<Rightarrow>
                   (case saadc_event_handler_interrupt e ev s of
                      Inl f \<Rightarrow> Some (Inl f) | Inr s' \<Rightarrow> cw e irq (Suc n) s')
          else Some (Inr s)) = Some y"
    show "Q e irq n s y"
      unfolding Q_def
    proof (intro impI)
      assume flag: "m_adc_cal_in_progress s"
        and never: "\<forall>k\<ge>n. irq k \<noteq> Some NRF_DRV_SAADC_EVT_CALIBRATEDONE"
      from never have later: "\<forall>k\<ge>Suc n. irq k \<noteq> Some NRF_DRV_SAADC_EVT_CALIBRATEDONE"
        by simp
      show "\<exists>f. y = Inl f"
      proof (cases "irq n")
        case None
        with flag body have "cw e irq (Suc n) s = Some y" by simp
        from ih [OF this] flag later show ?thesis by (simp add: Q_def)
      next
        case (Some ev)
        with never have ev: "ev \<noteq> NRF_DRV_SAADC_EVT_CALIBRATEDONE" by auto
        show ?thesis
        proof (cases "saadc_event_handler_interrupt e ev s")
          case (Inl f)
          with flag Some body show ?thesis by auto
        next
          case (Inr s1)
          with flag Some body have "cw e irq (Suc n) s1 = Some y" by simp
          from ih [OF this] irq_handler_keeps_flag [OF ev Inr] flag later
          show ?thesis by (simp add: Q_def)
        qed
      qed
    qed
  qed
  with flag never show ?thesis by (simp add: Q_def)
qed

lemma cal_wait_spins:
  assumes flag: "m_adc_cal_in_progress s"
    and never: "\<forall>k\<ge>n. irq k \<noteq> Some NRF_DRV_SAADC_EVT_CALIBRATEDONE"
    and put: "sched_event_put_ret e = NRF_SUCCESS"
  shows "cal_wait e irq n s = None"
proof (rule ccontr)
  assume "cal_wait e irq n s \<noteq> None"
  then obtain y where run: "cal_wait e irq n s = Some y" by auto
  define Q where "Q = (\<lambda>(e'::env) (irq::nat \<Rightarrow> nrf_drv_saadc_evt option) (n::nat) (s::state)
                          (y::fault + state).
     e' = e \<longrightarrow> m_adc_cal_in_progress s \<longrightarrow> (\<forall>k\<ge>n. irq k \<noteq> Some NRF_DRV_SAADC_EVT_CALIBRATEDONE)
       \<longrightarrow> False)"
  have "Q e irq n s y"
  proof (rule cal_wait.raw_induct [where P = Q, OF _ run])
    fix cw e' irq n s y
    assume ih: "\<And>e irq n s y. cw e irq n s = Some y \<Longrightarrow> Q e irq n s y"
      and body: "(if m_adc_cal_in_progress s
          then case irq n of None \<Rightarrow> cw e' irq (Suc n) s
               | Some ev \<Rightarrow>
                   (case saadc_event_handler_interrupt e' ev s of
                      Inl f \<Rightarrow> Some (Inl f) | Inr s' \<Rightarrow> cw e' irq (Suc n) s')
          else Some (Inr s)) = Some y"
    show "Q e' irq n s y"
      unfolding Q_def
    proof (intro impI)
      assume e': "e' = e" and flag: "m_adc_cal_in_progress s"
        and never: "\<forall>k\<ge>n. irq k \<noteq> Some NRF_DRV_SAADC_EVT_CALIBRATEDONE"
      from never have later: "\<forall>k\<ge>Suc n. irq k \<noteq> Some NRF_DRV_SAADC_EVT_CALIBRATEDONE"
        by simp
      show False
      proof (cases "irq n")
        case None
        with flag body have "cw e' irq (Suc n) s = Some y" by simp
        from ih [OF this] have "e' = e \<longrightarrow> m_adc_cal_in_progress s \<longrightarrow>
            (\<forall>k\<ge>Suc n. irq k \<noteq> Some NRF_DRV_SAADC_EVT_CALIBRATEDONE) \<longrightarrow> False"
          unfolding Q_def .
        with e' flag later show ?thesis by (rule_tac mp [OF mp [OF mp]])
      next
        case (Some ev)
        with never have ev: "ev \<noteq> NRF_DRV_SAADC_EVT_CALIBRATEDONE" by auto
        from irq_handler_returns [OF put, of ev s] e'
        obtain s1 where Inr: "saadc_event_handler_interrupt e' ev s = Inr s1" by auto
        with flag Some body have run1: "cw e' irq (Suc n) s1 = Some y" by simp
        from irq_handler_keeps_flag [OF ev Inr] flag have flag1: "m_adc_cal_in_progress s1"
          by simp
        from ih [OF run1] have "e' = e \<longrightarrow> m_adc_cal_in_progress s1 \<longrightarrow>
            (\<forall>k\<ge>Suc n. irq k \<noteq> Some NRF_DRV_SAADC_EVT_CALIBRATEDONE) \<longrightarrow> False"
          unfolding Q_def .
        with e' flag1 later show ?thesis by (rule_tac mp [OF mp [OF mp]])
      qed
    qed
  qed
  then have "m_adc_cal_in_progress s \<longrightarrow>
      (\<forall>k\<ge>n. irq k \<noteq> Some NRF_DRV_SAADC_EVT_CALIBRATEDONE) \<longrightarrow> False"
    unfolding Q_def by (rule mp) (rule refl)
  with flag never show False by (rule_tac mp [OF mp])
qed

lemma cal_wait_returns:
  assumes "irq (n + k) = Some NRF_DRV_SAADC_EVT_CALIBRATEDONE"
    and "\<forall>j<k. irq (n + j) \<noteq> Some NRF_DRV_SAADC_EVT_CALIBRATEDONE"
    and "m_adc_cal_in_progress s"
    and put: "sched_event_put_ret e = NRF_SUCCESS"
  shows "\<exists>s'. cal_wait e irq n s = Some (Inr s') \<and> \<not> m_adc_cal_in_progress s'
            \<and> \<not> saadc_initialized s'"
  using assms(1-3)
proof (induction k arbitrary: n s)
  case 0
  then have "cal_wait e irq n s
      = cal_wait e irq (Suc n) (s\<lparr>m_adc_cal_in_progress := False, saadc_initialized := False,
             calls := calls s @ [Nrf_Drv_Saadc_Uninit]\<rparr>)"
    by (subst cal_wait.simps) (simp add: irq_handler_calibratedone)
  also have "\<dots> = Some (Inr (s\<lparr>m_adc_cal_in_progress := False, saadc_initialized := False,
             calls := calls s @ [Nrf_Drv_Saadc_Uninit]\<rparr>))"
    by (subst cal_wait.simps) simp
  finally show ?case
    by simp
next
  case (Suc k)
  from Suc.prems(2) have now: "irq n \<noteq> Some NRF_DRV_SAADC_EVT_CALIBRATEDONE"
    by (metis add.right_neutral zero_less_Suc)
  have later: "irq (Suc n + k) = Some NRF_DRV_SAADC_EVT_CALIBRATEDONE"
    "\<forall>j<k. irq (Suc n + j) \<noteq> Some NRF_DRV_SAADC_EVT_CALIBRATEDONE"
    using Suc.prems(1,2) by auto
  show ?case
  proof (cases "irq n")
    case None
    with Suc.prems(3) have eq: "cal_wait e irq n s = cal_wait e irq (Suc n) s"
      by (subst cal_wait.simps) simp
    show ?thesis
      by (subst eq) (rule Suc.IH [OF later Suc.prems(3)])
  next
    case (Some ev)
    with now have ev: "ev \<noteq> NRF_DRV_SAADC_EVT_CALIBRATEDONE" by auto
    from irq_handler_returns [OF put, of ev s]
    obtain s1 where Inr: "saadc_event_handler_interrupt e ev s = Inr s1" by auto
    from irq_handler_keeps_flag [OF ev Inr] Suc.prems(3)
    have flag1: "m_adc_cal_in_progress s1" by simp
    from Some Inr Suc.prems(3) have eq: "cal_wait e irq n s = cal_wait e irq (Suc n) s1"
      by (subst cal_wait.simps) simp
    show ?thesis
      by (subst eq) (rule Suc.IH [OF later flag1])
  qed
qed

subsection \<open>Calibration\<close>

lemma saadc_calibrate_unfold:
  assumes "\<not> saadc_initialized s" and "saadc_calibrate_offset_ret e = NRF_SUCCESS"
  shows "saadc_calibrate e irq s =
    (case cal_wait e irq 0
            (s\<lparr>saadc_initialized := True, m_adc_cal_in_progress := True,
               calls := calls s @ [Nrf_Drv_Saadc_Init, Nrf_Drv_Saadc_Calibrate_Offset]\<rparr>) of
       None \<Rightarrow> None
     | Some (Inl f) \<Rightarrow> Some (Inl f)
     | Some (Inr s') \<Rightarrow> Some (Inr (M_BATT_STATUS_CODE_SUCCESS, s')))"
  using assms
  by (simp add: saadc_calibrate_def nrf_drv_saadc_init_def nrf_drv_saadc_calibrate_offset_def
        log_call_def)

lemma first_calibratedone:
  fixes irq :: "nat \<Rightarrow> nrf_drv_saadc_evt option"
  assumes "irq m = Some NRF_DRV_SAADC_EVT_CALIBRATEDONE"
  obtains k where "irq k = Some NRF_DRV_SAADC_EVT_CALIBRATEDONE"
    and "\<forall>j<k. irq j \<noteq> Some NRF_DRV_SAADC_EVT_CALIBRATEDONE"
proof -
  define k where "k = (LEAST k. irq k = Some NRF_DRV_SAADC_EVT_CALIBRATEDONE)"
  have "irq k = Some NRF_DRV_SAADC_EVT_CALIBRATEDONE"
    unfolding k_def using assms by (rule LeastI)
  moreover have "\<forall>j<k. irq j \<noteq> Some NRF_DRV_SAADC_EVT_CALIBRATEDONE"
    unfolding k_def using not_less_Least by blast
  ultimately show ?thesis using that by blast
qed

lemma saadc_calibrate_returns:
  assumes idle: "\<not> saadc_initialized s"
    and cal: "saadc_calibrate_offset_ret e = NRF_SUCCESS"
    and put: "sched_event_put_ret e = NRF_SUCCESS"
    and arrives: "irq m = Some NRF_DRV_SAADC_EVT_CALIBRATEDONE"
  shows "\<exists>s'. saadc_calibrate e irq s = Some (Inr (M_BATT_STATUS_CODE_SUCCESS, s'))
              \<and> \<not> m_adc_cal_in_progress s' \<and> \<not> saadc_initialized s'"
proof -
  define s1 where "s1 = s\<lparr>saadc_initialized := True, m_adc_cal_in_progress := True,
               calls := calls s @ [Nrf_Drv_Saadc_Init, Nrf_Drv_Saadc_Calibrate_Offset]\<rparr>"
  have flag: "m_adc_cal_in_progress s1" by (simp add: s1_def)
  note unfold = saadc_calibrate_unfold [OF idle cal, of irq, folded s1_def]
  from arrives obtain k where k: "irq (0 + k) = Some NRF_DRV_SAADC_EVT_CALIBRATEDONE"
    "\<forall>j<k. irq (0 + j) \<noteq> Some NRF_DRV_SAADC_EVT_CALIBRATEDONE"
    by (auto elim: first_calibratedone)
  from cal_wait_returns [OF k flag put] obtain s' where
    "cal_wait e irq 0 s1 = Some (Inr s')" "\<not> m_adc_cal_in_progress s'" "\<not> saadc_initialized s'"
    by blast
  then show ?thesis by (auto simp: unfold)
qed

lemma saadc_calibrate_spins:
  assumes idle: "\<not> saadc_initialized s"
    and cal: "saadc_calibrate_offset_ret e = NRF_SUCCESS"
    and put: "sched_event_put_ret e = NRF_SUCCESS"
    and never: "\<forall>n. irq n \<noteq> Some NRF_DRV_SAADC_EVT_CALIBRATEDONE"
  shows "saadc_calibrate e irq s = None"
proof -
  define s1 where "s1 = s\<lparr>saadc_initialized := True, m_adc_cal_in_progress := True,
               calls := calls s @ [Nrf_Drv_Saadc_Init, Nrf_Drv_Saadc_Calibrate_Offset]\<rparr>"
  have flag: "m_adc_cal_in_progress s1" by (simp add: s1_def)
  note unfold = saadc_calibrate_unfold [OF idle cal, of irq, folded s1_def]
  from never have "\<forall>k\<ge>0. irq k \<noteq> Some NRF_DRV_SAADC_EVT_CALIBRATEDONE" by simp
  from cal_wait_spins [OF flag this put] show ?thesis by (simp add: unfold)
qed

text \<open>
  C3, as the code has it. \<open>saadc_calibrate\<close> takes no time bound and has no timeout
  result. Started with the ADC free, and with the SDK calls succeeding, it returns
  exactly when the interrupt handler is given \<open>NRF_DRV_SAADC_EVT_CALIBRATEDONE\<close>; it
  then returns \<open>M_BATT_STATUS_CODE_SUCCESS\<close> with the flag cleared and the ADC
  released. If that event never arrives, it does not return.
\<close>

theorem saadc_calibrate_waits_for_calibratedone:
  assumes idle: "\<not> saadc_initialized s"
    and cal: "saadc_calibrate_offset_ret e = NRF_SUCCESS"
    and put: "sched_event_put_ret e = NRF_SUCCESS"
  shows "(saadc_calibrate e irq s = None
            \<longleftrightarrow> (\<forall>n. irq n \<noteq> Some NRF_DRV_SAADC_EVT_CALIBRATEDONE))
       \<and> (saadc_calibrate e irq s \<noteq> None \<longrightarrow>
            (\<exists>s'. saadc_calibrate e irq s = Some (Inr (M_BATT_STATUS_CODE_SUCCESS, s'))
                  \<and> \<not> m_adc_cal_in_progress s' \<and> \<not> saadc_initialized s'))"
proof (cases "\<exists>n. irq n = Some NRF_DRV_SAADC_EVT_CALIBRATEDONE")
  case True
  then obtain m where "irq m = Some NRF_DRV_SAADC_EVT_CALIBRATEDONE" by blast
  from saadc_calibrate_returns [of s e irq m, OF idle cal put this] True show ?thesis by auto
next
  case False
  then have "\<forall>n. irq n \<noteq> Some NRF_DRV_SAADC_EVT_CALIBRATEDONE" by simp
  from saadc_calibrate_spins [OF idle cal put this] False show ?thesis by simp
qed

theorem saadc_calibrate_waits_for_calibratedone_witness:
  "\<exists>s'. saadc_calibrate env_example (irq_after 2) state0 = Some (Inr (M_BATT_STATUS_CODE_SUCCESS, s'))
        \<and> \<not> m_adc_cal_in_progress s' \<and> \<not> saadc_initialized s'"
proof -
  have idle: "\<not> saadc_initialized state0" by (simp add: state0_def)
  have cal: "saadc_calibrate_offset_ret env_example = NRF_SUCCESS"
    and put: "sched_event_put_ret env_example = NRF_SUCCESS"
    by (simp_all add: env_example_def)
  have "irq_after 2 2 = Some NRF_DRV_SAADC_EVT_CALIBRATEDONE" by (simp add: irq_after_def)
  with saadc_calibrate_waits_for_calibratedone [OF idle cal put, of "irq_after 2"]
  show ?thesis by blast
qed

text \<open>
  C3, as it is stated, has the calibration terminate in every execution. With no
  SAADC interrupt the loop at lines 300-303 never ends.
\<close>

theorem saadc_calibrate_spins_counterexample:
  "saadc_calibrate env_example irq_never state0 = None"
  by (rule saadc_calibrate_spins) (simp_all add: state0_def env_example_def irq_never_def)

subsection \<open>Parameter check\<close>

lemma param_check_Some:
  "param_check (Some i) s =
     (let r1 = r_1_ohm (voltage_divider (batt_meas_param i));
          r2 = r_2_ohm (voltage_divider (batt_meas_param i))
      in if evt_handler i = None then (NRF_ERROR_NULL, s)
         else if (r1 = 0) \<noteq> (r2 = 0) then (M_BATT_STATUS_CODE_INVALID_PARAM, s)
         else (if batt_voltage_limit_full (batt_meas_param i) < batt_voltage_limit_low (batt_meas_param i)
               then M_BATT_STATUS_CODE_INVALID_PARAM else M_BATT_STATUS_CODE_SUCCESS,
               s\<lparr>m_battery_divider_factor :=
                    (if r1 = 0 then Factor_One else Factor_Quotient r2 (r1 + r2))\<rparr>))"
  by (auto simp: param_check_def Let_def split: option.splits)

text \<open>
  C7, as the code has it. \<open>param_check\<close> returns \<open>NRF_ERROR_NULL\<close> exactly when the
  event handler is null. With a handler it returns the one status
  \<open>M_BATT_STATUS_CODE_INVALID_PARAM\<close> exactly when exactly one resistor is zero or the
  full limit is below the low limit, and \<open>M_BATT_STATUS_CODE_SUCCESS\<close> otherwise. On
  success the divider factor is 1 when both resistors are zero, and
  \<open>r_2 / (float) (r_1 + r_2)\<close>, the sum taken in 32 bits, when both are non-zero.
\<close>

theorem param_check_result:
  "(fst (param_check (Some i) s) = NRF_ERROR_NULL \<longleftrightarrow> evt_handler i = None)
    \<and> (fst (param_check (Some i) s) = M_BATT_STATUS_CODE_INVALID_PARAM
          \<longleftrightarrow> evt_handler i \<noteq> None
              \<and> ((r_1_ohm (voltage_divider (batt_meas_param i)) = 0)
                    \<noteq> (r_2_ohm (voltage_divider (batt_meas_param i)) = 0)
                  \<or> batt_voltage_limit_full (batt_meas_param i)
                      < batt_voltage_limit_low (batt_meas_param i)))
    \<and> (fst (param_check (Some i) s) = M_BATT_STATUS_CODE_SUCCESS
          \<longleftrightarrow> evt_handler i \<noteq> None
              \<and> (r_1_ohm (voltage_divider (batt_meas_param i)) = 0)
                    = (r_2_ohm (voltage_divider (batt_meas_param i)) = 0)
              \<and> batt_voltage_limit_low (batt_meas_param i)
                    \<le> batt_voltage_limit_full (batt_meas_param i))
    \<and> (fst (param_check (Some i) s) = M_BATT_STATUS_CODE_SUCCESS
          \<and> r_1_ohm (voltage_divider (batt_meas_param i)) = 0
          \<and> r_2_ohm (voltage_divider (batt_meas_param i)) = 0
          \<longrightarrow> m_battery_divider_factor (snd (param_check (Some i) s)) = Factor_One)
    \<and> (fst (param_check (Some i) s) = M_BATT_STATUS_CODE_SUCCESS
          \<and> r_1_ohm (voltage_divider (batt_meas_param i)) \<noteq> 0
          \<longrightarrow> m_battery_divider_factor (snd (param_check (Some i) s))
                = Factor_Quotient (r_2_ohm (voltage_divider (batt_meas_param i)))
                    (r_1_ohm (voltage_divider (batt_meas_param i))
                      + r_2_ohm (voltage_divider (batt_meas_param i))))"
  by (auto simp: param_check_Some Let_def)

theorem param_check_result_witness:
  "fst (param_check (Some init_example) state0) = M_BATT_STATUS_CODE_SUCCESS
   \<and> m_battery_divider_factor (snd (param_check (Some init_example) state0)) = Factor_One
   \<and> fst (param_check (Some init_divider) state0) = M_BATT_STATUS_CODE_SUCCESS
   \<and> m_battery_divider_factor (snd (param_check (Some init_divider) state0))
        = Factor_Quotient 10000 20000
   \<and> fst (param_check (Some init_bad_divider) state0) = M_BATT_STATUS_CODE_INVALID_PARAM
   \<and> fst (param_check (Some init_bad_limits) state0) = M_BATT_STATUS_CODE_INVALID_PARAM
   \<and> fst (param_check (Some init_null_handler) state0) = NRF_ERROR_NULL"
  using param_check_result [of init_example state0]
    param_check_result [of init_divider state0]
    param_check_result [of init_bad_divider state0]
    param_check_result [of init_bad_limits state0]
    param_check_result [of init_null_handler state0]
  by (simp add: example_defs)

text \<open>
  C7, as it is stated, has a failure of its own for the divider, raised exactly when
  one resistor is zero. A configuration with two non-zero resistors and crossed
  limits gets the same status as one with a single zero resistor and valid limits;
  and a configuration with a single zero resistor and a null handler gets another
  status.
\<close>

theorem param_check_one_code_counterexample:
  "fst (param_check (Some init_bad_limits) state0) = fst (param_check (Some init_bad_divider) state0)
   \<and> r_1_ohm (voltage_divider (batt_meas_param init_bad_limits)) \<noteq> 0
   \<and> r_2_ohm (voltage_divider (batt_meas_param init_bad_limits)) \<noteq> 0
   \<and> r_1_ohm (voltage_divider (batt_meas_param init_bad_divider)) = 0
   \<and> r_2_ohm (voltage_divider (batt_meas_param init_bad_divider)) \<noteq> 0
   \<and> batt_voltage_limit_low (batt_meas_param init_bad_divider)
        \<le> batt_voltage_limit_full (batt_meas_param init_bad_divider)
   \<and> fst (param_check (Some init_null_handler) state0) \<noteq> fst (param_check (Some init_bad_divider) state0)
   \<and> r_1_ohm (voltage_divider (batt_meas_param init_null_handler)) = 0
   \<and> r_2_ohm (voltage_divider (batt_meas_param init_null_handler)) \<noteq> 0"
  by (simp add: param_check_Some example_defs)


subsection \<open>Rounding of the converted voltage\<close>

lemma uint_word16: "0 \<le> k \<Longrightarrow> k < 65536 \<Longrightarrow> uint (word_of_int k :: 16 word) = k"
  by (simp add: uint_word_of_int take_bit_eq_mod)

text \<open>
  The integer step of \<open>adc_to_batt_voltage\<close> (line 96) rounds to the nearest
  multiple of ten, unless the sum exceeds the 16 bit result.
\<close>

lemma round_to_tens_value:
  assumes "uint tmp_voltage \<le> 65530"
  shows "uint (round_to_tens tmp_voltage) = (uint tmp_voltage + 5) div 10 * 10"
    and "\<bar>uint (round_to_tens tmp_voltage) - uint tmp_voltage\<bar> \<le> 5"
proof -
  define k where "k = (uint tmp_voltage + 5) div 10 * 10"
  have nonneg: "0 \<le> uint tmp_voltage + 5" by simp
  have q: "c_div (uint tmp_voltage + 5) 10 * 10 = k"
    using nonneg by (simp add: c_div_nonneg k_def)
  have "k \<le> uint tmp_voltage + 5"
    unfolding k_def by simp
  with assms have hi: "k < 65536" by linarith
  have lo: "0 \<le> k"
    unfolding k_def using nonneg by (simp add: pos_imp_zdiv_nonneg_iff)
  have v: "uint (round_to_tens tmp_voltage) = k"
    unfolding round_to_tens_def q by (rule uint_word16 [OF lo hi])
  then show "uint (round_to_tens tmp_voltage) = (uint tmp_voltage + 5) div 10 * 10"
    by (simp add: k_def)
  show "\<bar>uint (round_to_tens tmp_voltage) - uint tmp_voltage\<bar> \<le> 5"
    unfolding v k_def by presburger
qed

lemma round_to_tens_wraps: "round_to_tens 65535 = 4"
  by (simp add: round_to_tens_def c_div_def)

subsection \<open>Periodic tick\<close>

lemmas driver_defs =
  nrf_drv_saadc_init_def nrf_drv_saadc_channel_init_def nrf_drv_saadc_buffer_convert_def
  nrf_drv_saadc_sample_def log_call_def

lemma saadc_init_busy:
  "saadc_initialized s \<Longrightarrow> saadc_init e s = Inl (App_Error NRF_ERROR_INVALID_STATE)"
  by (simp add: saadc_init_def driver_defs)

lemma saadc_init_only_success:
  "saadc_init e s = Inr (r, s') \<Longrightarrow> r = NRF_SUCCESS"
  by (auto simp: saadc_init_def driver_defs split: if_splits)

lemma app_timer_periodic_handler_busy:
  "saadc_initialized s \<Longrightarrow>
     app_timer_periodic_handler e s = Inl (App_Error NRF_ERROR_INVALID_STATE)"
  by (simp add: app_timer_periodic_handler_def saadc_init_busy)

lemma app_timer_periodic_handler_idle:
  "\<not> saadc_initialized s \<Longrightarrow>
     app_timer_periodic_handler e s =
       (if saadc_channel_init_ret e \<noteq> NRF_SUCCESS then Inl (App_Error (saadc_channel_init_ret e))
        else if saadc_buffer_convert_ret e \<noteq> NRF_SUCCESS
          then Inl (App_Error (saadc_buffer_convert_ret e))
        else if saadc_sample_ret e \<noteq> NRF_SUCCESS then Inl (App_Error (saadc_sample_ret e))
        else Inr (s\<lparr>saadc_initialized := True,
                     calls := calls s @ [Nrf_Drv_Saadc_Init, Nrf_Drv_Saadc_Channel_Init,
                                         Nrf_Drv_Saadc_Buffer_Convert, Nrf_Drv_Saadc_Sample]\<rparr>))"
  by (simp add: app_timer_periodic_handler_def saadc_init_def driver_defs)

text \<open>
  C1. A tick while the ADC is still claimed is meant to return without doing
  anything (line 315). \<open>saadc_init\<close> never returns \<open>NRF_ERROR_INVALID_STATE\<close>: it
  hands the status of \<open>nrf_drv_saadc_init\<close> to \<open>APP_ERROR_CHECK\<close> (line 266). So the
  first tick triggers a sample, and a second tick before the conversion has
  completed ends in the application error handler.
\<close>

theorem tick_while_adc_claimed_escalates:
  "run env_example [Timer_Tick] state_ready
     = Inr (state_ready\<lparr>saadc_initialized := True,
                        calls := [Nrf_Drv_Saadc_Init, Nrf_Drv_Saadc_Channel_Init,
                                  Nrf_Drv_Saadc_Buffer_Convert, Nrf_Drv_Saadc_Sample]\<rparr>)
   \<and> run env_example [Timer_Tick, Timer_Tick] state_ready
     = Inl (App_Error NRF_ERROR_INVALID_STATE)"
  by (simp add: app_timer_periodic_handler_idle app_timer_periodic_handler_busy example_defs)

text \<open>Once the interrupt handler has released the ADC, the next tick triggers again.\<close>

lemma tick_after_release:
  "run env_example [Timer_Tick, Saadc_Irq (NRF_DRV_SAADC_EVT_DONE 512), Timer_Tick] state_ready
     = Inr (state_ready\<lparr>saadc_initialized := True, sched_queue := [300],
          calls := [Nrf_Drv_Saadc_Init, Nrf_Drv_Saadc_Channel_Init,
                    Nrf_Drv_Saadc_Buffer_Convert, Nrf_Drv_Saadc_Sample,
                    Adc_To_Batt_Voltage 512, App_Sched_Event_Put 300, Nrf_Drv_Saadc_Uninit,
                    Nrf_Drv_Saadc_Init, Nrf_Drv_Saadc_Channel_Init,
                    Nrf_Drv_Saadc_Buffer_Convert, Nrf_Drv_Saadc_Sample]\<rparr>)"
  by (simp add: app_timer_periodic_handler_idle irq_handler_simps example_defs Let_def
        round_to_tens_def c_div_def)

text \<open>The same through the interface: enabling twice before the conversion completes.\<close>

lemma enable_twice_escalates:
  "(case m_batt_meas_enable env_example 1000 state_ready of
      Inl f \<Rightarrow> False
    | Inr (r, s) \<Rightarrow> r = M_BATT_STATUS_CODE_SUCCESS
        \<and> m_batt_meas_enable env_example 1000 s = Inl (App_Error NRF_ERROR_INVALID_STATE))"
  by (simp add: m_batt_meas_enable_def app_timer_periodic_handler_idle
       app_timer_periodic_handler_busy example_defs Let_def log_call_def)

subsection \<open>What the interrupt handler does\<close>

text \<open>
  C2, as the code has it. For a completed conversion the interrupt handler converts
  the raw sample to millivolts (\<open>adc_to_batt_voltage\<close>), queues the converted
  voltage for the deferred handler and releases the ADC; for the calibration-done
  event it clears the flag and releases the ADC. It never does the state of charge
  lookup, the battery service update or the call of the application handler.
\<close>

theorem interrupt_handler_work:
  assumes "saadc_event_handler_interrupt e ev s = Inr s'"
  shows "\<exists>cs. calls s' = calls s @ cs \<and> (\<forall>c\<in>set cs. \<not> deferred_work c)
    \<and> (case ev of
         NRF_DRV_SAADC_EVT_DONE x \<Rightarrow>
           cs = [Adc_To_Batt_Voltage (scast x),
                 App_Sched_Event_Put
                   (round_to_tens (float_millivolts e (1, 1) (m_battery_divider_factor s) (scast x))),
                 Nrf_Drv_Saadc_Uninit]
           \<and> sched_queue s' = sched_queue s @
                 [round_to_tens (float_millivolts e (1, 1) (m_battery_divider_factor s) (scast x))]
       | NRF_DRV_SAADC_EVT_LIMIT \<Rightarrow> cs = [Nrf_Drv_Saadc_Uninit] \<and> sched_queue s' = sched_queue s
       | NRF_DRV_SAADC_EVT_CALIBRATEDONE \<Rightarrow>
           cs = [Nrf_Drv_Saadc_Uninit] \<and> sched_queue s' = sched_queue s
           \<and> \<not> m_adc_cal_in_progress s')"
  using assms
  by (cases ev) (auto simp: irq_handler_simps Let_def split: if_splits)

theorem interrupt_handler_work_witness:
  "calls_of (saadc_event_handler_interrupt env_example NRF_DRV_SAADC_EVT_CALIBRATEDONE
        (state_ready\<lparr>saadc_initialized := True, m_adc_cal_in_progress := True\<rparr>))
     = [Nrf_Drv_Saadc_Uninit]"
proof -
  let ?s = "state_ready\<lparr>saadc_initialized := True, m_adc_cal_in_progress := True\<rparr>"
  obtain s' where h: "saadc_event_handler_interrupt env_example NRF_DRV_SAADC_EVT_CALIBRATEDONE ?s
      = Inr s'"
    by (simp add: irq_handler_simps)
  have "calls ?s = []" by (simp add: example_defs)
  with interrupt_handler_work [OF h] h show ?thesis
    by (auto simp: calls_of_def)
qed

text \<open>
  C2, as it is stated, has the interrupt handler pass on the raw sample without
  converting it. For the sample 512 the handler calls \<open>adc_to_batt_voltage\<close>, and
  what it queues is the converted value 300, not 512.
\<close>

theorem interrupt_handler_converts_counterexample:
  "calls_of (saadc_event_handler_interrupt env_example (NRF_DRV_SAADC_EVT_DONE 512)
        (state_ready\<lparr>saadc_initialized := True\<rparr>))
     = [Adc_To_Batt_Voltage 512, App_Sched_Event_Put 300, Nrf_Drv_Saadc_Uninit]"
  by (simp add: calls_of_def irq_handler_simps example_defs Let_def round_to_tens_def c_div_def)

subsection \<open>Order of a measurement cycle\<close>

lemma sched_run_single:
  "sched_run e [v] s = batt_event_handler_adc e v s"
  by (simp split: sum.splits)

lemma batt_event_handler_adc_ok:
  assumes "batt_voltage_to_percent (m_batt_meas_param s) v = Inr pct"
    and "m_evt_handler s = Some h"
    and "m_ble_bas_configured s \<longrightarrow>
           bas_battery_level_update_ret e \<in> {NRF_SUCCESS, NRF_ERROR_INVALID_STATE,
                                               BLE_ERROR_GATTS_SYS_ATTR_MISSING}"
  shows "batt_event_handler_adc e v s =
     Inr (s\<lparr>m_initial_batt_level_percent :=
              (if m_ble_bas_configured s then m_initial_batt_level_percent s else pct),
            calls := calls s @ [Batt_Voltage_To_Percent v]
              @ (if m_ble_bas_configured s then [Ble_Bas_Battery_Level_Update pct] else [])
              @ [Evt_Handler h
                   \<lparr>type = (if v \<le> batt_voltage_limit_low (m_batt_meas_param s)
                            then M_BATT_MEAS_EVENT_LOW
                            else if v \<ge> batt_voltage_limit_full (m_batt_meas_param s)
                            then M_BATT_MEAS_EVENT_FULL
                            else M_BATT_MEAS_EVENT_DATA),
                    voltage_mv = v, level_percent = pct, valid_voltage = True\<rparr>]\<rparr>)"
  using assms
  by (cases "m_ble_bas_configured s")
     (auto simp: batt_event_handler_adc_def Let_def log_call_def)

text \<open>
  C4, as the code has it. In a measurement cycle that starts with the ADC free and
  in which the SDK calls succeed, the calls are made in this order: the ADC is
  claimed and the conversion triggered; the interrupt handler converts the sample,
  queues the voltage and releases the ADC; the deferred handler looks up the state
  of charge, updates the battery service if it is configured, and calls the
  application handler. The release comes before the deferred work. A tick that
  triggers a conversion found the ADC free.
\<close>

theorem measurement_cycle_order:
  assumes idle: "\<not> saadc_initialized s" "sched_queue s = []"
    and sdk: "saadc_channel_init_ret e = NRF_SUCCESS" "saadc_buffer_convert_ret e = NRF_SUCCESS"
      "saadc_sample_ret e = NRF_SUCCESS" "sched_event_put_ret e = NRF_SUCCESS"
    and bas: "m_ble_bas_configured s \<longrightarrow>
           bas_battery_level_update_ret e \<in> {NRF_SUCCESS, NRF_ERROR_INVALID_STATE,
                                               BLE_ERROR_GATTS_SYS_ATTR_MISSING}"
    and handler: "m_evt_handler s = Some h"
    and v: "v = round_to_tens (float_millivolts e (1, 1) (m_battery_divider_factor s) (scast x))"
    and pct: "batt_voltage_to_percent (m_batt_meas_param s) v = Inr pct"
  shows "\<exists>s' ev. run e (measurement_cycle x) s = Inr s'
      \<and> calls s' = calls s @
          [Nrf_Drv_Saadc_Init, Nrf_Drv_Saadc_Channel_Init, Nrf_Drv_Saadc_Buffer_Convert,
           Nrf_Drv_Saadc_Sample,
           Adc_To_Batt_Voltage (scast x), App_Sched_Event_Put v, Nrf_Drv_Saadc_Uninit,
           Batt_Voltage_To_Percent v]
          @ (if m_ble_bas_configured s then [Ble_Bas_Battery_Level_Update pct] else [])
          @ [Evt_Handler h ev]
      \<and> voltage_mv ev = v \<and> level_percent ev = pct
      \<and> \<not> saadc_initialized s' \<and> sched_queue s' = []
      \<and> (\<forall>t t'. app_timer_periodic_handler e t = Inr t' \<longrightarrow> \<not> saadc_initialized t)"
proof -
  define s1 where "s1 = s\<lparr>saadc_initialized := True,
                     calls := calls s @ [Nrf_Drv_Saadc_Init, Nrf_Drv_Saadc_Channel_Init,
                                         Nrf_Drv_Saadc_Buffer_Convert, Nrf_Drv_Saadc_Sample]\<rparr>"
  define s2 where "s2 = s1\<lparr>saadc_initialized := False,
                      sched_queue := sched_queue s1 @ [v],
                      calls := calls s1 @ [Adc_To_Batt_Voltage (scast x), App_Sched_Event_Put v,
                                          Nrf_Drv_Saadc_Uninit]\<rparr>"
  have tick: "app_timer_periodic_handler e s = Inr s1"
    using idle sdk by (simp add: app_timer_periodic_handler_idle s1_def)
  have irq: "saadc_event_handler_interrupt e (NRF_DRV_SAADC_EVT_DONE x) s1 = Inr s2"
    using sdk by (simp add: irq_handler_simps Let_def s2_def s1_def v)
  define t where "t = s2\<lparr>sched_queue := []\<rparr>"
  have q: "sched_queue s2 = [v]"
    using idle by (simp add: s2_def s1_def)
  have t: "m_batt_meas_param t = m_batt_meas_param s" "m_evt_handler t = m_evt_handler s"
    "m_ble_bas_configured t = m_ble_bas_configured s"
    "\<not> saadc_initialized t" "sched_queue t = []"
    "calls t = calls s @
          [Nrf_Drv_Saadc_Init, Nrf_Drv_Saadc_Channel_Init, Nrf_Drv_Saadc_Buffer_Convert,
           Nrf_Drv_Saadc_Sample,
           Adc_To_Batt_Voltage (scast x), App_Sched_Event_Put v, Nrf_Drv_Saadc_Uninit]"
    by (simp_all add: t_def s2_def s1_def)
  define ev where "ev =
     \<lparr>type = (if v \<le> batt_voltage_limit_low (m_batt_meas_param t)
              then M_BATT_MEAS_EVENT_LOW
              else if v \<ge> batt_voltage_limit_full (m_batt_meas_param t)
              then M_BATT_MEAS_EVENT_FULL
              else M_BATT_MEAS_EVENT_DATA),
      voltage_mv = v, level_percent = pct, valid_voltage = True\<rparr>"
  define s3 where "s3 = t\<lparr>m_initial_batt_level_percent :=
              (if m_ble_bas_configured t then m_initial_batt_level_percent t else pct),
            calls := calls t @ [Batt_Voltage_To_Percent v]
              @ (if m_ble_bas_configured t then [Ble_Bas_Battery_Level_Update pct] else [])
              @ [Evt_Handler h ev]\<rparr>"
  have deferred: "batt_event_handler_adc e v t = Inr s3"
    unfolding s3_def ev_def
    using bas by (intro batt_event_handler_adc_ok) (simp_all add: t pct handler)
  have "run e (measurement_cycle x) s = Inr s3"
    by (simp add: measurement_cycle_def tick irq app_sched_execute_def q sched_run_single
          deferred [unfolded t_def])
  moreover have "calls s3 = calls s @
          [Nrf_Drv_Saadc_Init, Nrf_Drv_Saadc_Channel_Init, Nrf_Drv_Saadc_Buffer_Convert,
           Nrf_Drv_Saadc_Sample,
           Adc_To_Batt_Voltage (scast x), App_Sched_Event_Put v, Nrf_Drv_Saadc_Uninit,
           Batt_Voltage_To_Percent v]
          @ (if m_ble_bas_configured s then [Ble_Bas_Battery_Level_Update pct] else [])
          @ [Evt_Handler h ev]"
    by (simp add: s3_def t)
  moreover have "voltage_mv ev = v" "level_percent ev = pct"
    by (simp_all add: ev_def)
  moreover have "\<not> saadc_initialized s3" "sched_queue s3 = []"
    by (simp_all add: s3_def t)
  ultimately show ?thesis
    by (auto simp: app_timer_periodic_handler_busy)
qed


theorem measurement_cycle_order_witness:
  "\<exists>ev. calls_of (run env_example (measurement_cycle 512) state_ready) =
     [Nrf_Drv_Saadc_Init, Nrf_Drv_Saadc_Channel_Init, Nrf_Drv_Saadc_Buffer_Convert,
      Nrf_Drv_Saadc_Sample, Adc_To_Batt_Voltage 512, App_Sched_Event_Put 300,
      Nrf_Drv_Saadc_Uninit, Batt_Voltage_To_Percent 300, Evt_Handler 1 ev]"
proof -
  have v: "(300 :: 16 word) = round_to_tens (float_millivolts env_example (1, 1)
              (m_battery_divider_factor state_ready) (scast (512 :: 16 word)))"
    by (simp add: example_defs round_to_tens_def c_div_def)
  have pct: "batt_voltage_to_percent (m_batt_meas_param state_ready) 300 = Inr 0"
    by (simp add: handler_defs example_defs)
  from measurement_cycle_order [of state_ready env_example 1 300 512 0, OF _ _ _ _ _ _ _ _ v pct]
  show ?thesis
    by (auto simp: example_defs calls_of_def)
qed

text \<open>
  C4, as it is stated, has the ADC released only after the event is dispatched. In
  the cycle for the sample 512 the ADC is released at the end of the interrupt
  handler, when nothing has been dispatched yet; the application handler is called
  two calls later.
\<close>

theorem release_before_dispatch_counterexample:
  "calls_of (run env_example [Timer_Tick, Saadc_Irq (NRF_DRV_SAADC_EVT_DONE 512)] state_ready) =
     [Nrf_Drv_Saadc_Init, Nrf_Drv_Saadc_Channel_Init, Nrf_Drv_Saadc_Buffer_Convert,
      Nrf_Drv_Saadc_Sample, Adc_To_Batt_Voltage 512, App_Sched_Event_Put 300,
      Nrf_Drv_Saadc_Uninit]
   \<and> calls_of (run env_example (measurement_cycle 512) state_ready) =
     [Nrf_Drv_Saadc_Init, Nrf_Drv_Saadc_Channel_Init, Nrf_Drv_Saadc_Buffer_Convert,
      Nrf_Drv_Saadc_Sample, Adc_To_Batt_Voltage 512, App_Sched_Event_Put 300,
      Nrf_Drv_Saadc_Uninit, Batt_Voltage_To_Percent 300,
      Evt_Handler 1 \<lparr>type = M_BATT_MEAS_EVENT_LOW, voltage_mv = 300, level_percent = 0,
                      valid_voltage = True\<rparr>]"
  by (simp add: calls_of_def measurement_cycle_def app_timer_periodic_handler_idle
        irq_handler_simps app_sched_execute_def handler_defs example_defs Let_def
        round_to_tens_def)

subsection \<open>No operation changes the parameters\<close>

lemma batt_event_handler_adc_param:
  "batt_event_handler_adc e v s = Inr s' \<Longrightarrow> m_batt_meas_param s' = m_batt_meas_param s"
  by (auto simp: batt_event_handler_adc_def Let_def log_call_def
        split: sum.splits if_splits option.splits)

lemma sched_run_param:
  "sched_run e vs s = Inr s' \<Longrightarrow> m_batt_meas_param s' = m_batt_meas_param s"
proof (induction vs arbitrary: s)
  case Nil
  then show ?case by simp
next
  case (Cons v vs)
  then show ?case
    by (auto split: sum.splits dest: batt_event_handler_adc_param)
qed

lemma app_timer_periodic_handler_param:
  "app_timer_periodic_handler e s = Inr s' \<Longrightarrow> m_batt_meas_param s' = m_batt_meas_param s"
  by (cases "saadc_initialized s")
     (auto simp: app_timer_periodic_handler_busy app_timer_periodic_handler_idle split: if_splits)

lemma step_param:
  "step e x s = Inr s' \<Longrightarrow> m_batt_meas_param s' = m_batt_meas_param s"
proof (cases x)
  case Timer_Tick
  then show "step e x s = Inr s' \<Longrightarrow> ?thesis"
    by (simp add: app_timer_periodic_handler_param)
next
  case (Saadc_Irq ev)
  then show "step e x s = Inr s' \<Longrightarrow> ?thesis"
    by (simp add: irq_handler_param)
next
  case Sched_Execute
  then show "step e x s = Inr s' \<Longrightarrow> ?thesis"
    by (auto simp: app_sched_execute_def dest: sched_run_param)
qed

lemma run_param:
  "run e xs s = Inr s' \<Longrightarrow> m_batt_meas_param s' = m_batt_meas_param s"
proof (induction xs arbitrary: s)
  case Nil
  then show ?case by simp
next
  case (Cons x xs)
  then show ?case
    by (auto split: sum.splits dest: step_param)
qed

lemma interface_param:
  "m_batt_meas_enable e ms s = Inr (r, s') \<Longrightarrow> m_batt_meas_param s' = m_batt_meas_param s"
  "m_batt_meas_disable e s = Inr (r, s') \<Longrightarrow> m_batt_meas_param s' = m_batt_meas_param s"
  "battery_service_init e s = Inr (r, s') \<Longrightarrow> m_batt_meas_param s' = m_batt_meas_param s"
  by (auto simp: m_batt_meas_enable_def m_batt_meas_disable_def battery_service_init_def
        Let_def log_call_def
      split: if_splits sum.splits dest!: app_timer_periodic_handler_param)

subsection \<open>The table is never validated\<close>

lemma param_check_ignores_table:
  "param_check (Some (i\<lparr>batt_meas_param := (batt_meas_param i)\<lparr>state_of_charge := soc\<rparr>\<rparr>)) s
     = param_check (Some i) s"
  by (simp add: param_check_Some Let_def)

lemma saadc_calibrate_param:
  assumes "saadc_calibrate e irq s = Some (Inr (r, s'))"
  shows "m_batt_meas_param s' = m_batt_meas_param s \<and> m_evt_handler s' = m_evt_handler s"
proof -
  from assms obtain s1 where run: "cal_wait e irq 0 s1 = Some (Inr s')"
    and s1: "m_batt_meas_param s1 = m_batt_meas_param s" "m_evt_handler s1 = m_evt_handler s"
    by (auto simp: saadc_calibrate_def nrf_drv_saadc_init_def nrf_drv_saadc_calibrate_offset_def
          log_call_def split: if_splits option.splits sum.splits)
  from cal_wait_param [OF run] s1 show ?thesis by simp
qed

lemma m_batt_meas_init_stores:
  assumes "m_batt_meas_init e irq h (Some i) s = Some (Inr (NRF_SUCCESS, s'))"
  shows "m_batt_meas_param s' = batt_meas_param i \<and> m_evt_handler s' = evt_handler i"
proof -
  from assms have h: "h"
    by (auto simp: m_batt_meas_init_def split: if_splits)
  obtain r0 s0 where pc: "param_check (Some i) s = (r0, s0)"
    by (cases "param_check (Some i) s")
  define s1 where "s1 = s0\<lparr>m_evt_handler := evt_handler i, m_batt_meas_param := batt_meas_param i\<rparr>"
  define s2 where "s2 = log_call Nrf_Gpio_Cfg_Input
     (if batt_mon_en_pin_used (batt_meas_param i) then log_call Nrf_Drv_Gpiote_Out_Init s1 else s1)"
  from assms h pc obtain r where "saadc_calibrate e irq s2 = Some (Inr (r, s'))"
    by (auto simp: m_batt_meas_init_def Let_def s1_def s2_def
        split: if_splits option.splits sum.splits prod.splits)
  from saadc_calibrate_param [OF this] show ?thesis
    by (simp add: s2_def s1_def log_call_def)
qed

text \<open>
  C9. The division by \<open>delta_mv\<close> is unguarded: with a step of zero the lookup is
  undefined for every voltage, so a defined lookup needs a non-zero step. Validation
  does not look at the table: replacing the table of a configuration changes
  nothing in the result of \<open>param_check\<close>. Initialisation stores the parameters as
  they are given, table included, and no other operation of the module (timer tick,
  interrupt, deferred handler, enable, disable, service initialisation) changes
  them.
\<close>

theorem soc_lookup_defined_only_if_delta_positive:
  "(delta_mv (state_of_charge p) = 0 \<longrightarrow> batt_voltage_to_percent p v = Inl Division_By_Zero)
   \<and> ((\<exists>pct. batt_voltage_to_percent p v = Inr pct) \<longrightarrow> delta_mv (state_of_charge p) \<noteq> 0)
   \<and> param_check (Some (i\<lparr>batt_meas_param := (batt_meas_param i)\<lparr>state_of_charge := soc\<rparr>\<rparr>)) s
        = param_check (Some i) s
   \<and> (m_batt_meas_init e irq h (Some i) s = Some (Inr (NRF_SUCCESS, s'))
        \<longrightarrow> m_batt_meas_param s' = batt_meas_param i)
   \<and> (run e xs s = Inr t \<longrightarrow> m_batt_meas_param t = m_batt_meas_param s)
   \<and> (m_batt_meas_enable e ms s = Inr (r, t) \<longrightarrow> m_batt_meas_param t = m_batt_meas_param s)
   \<and> (m_batt_meas_disable e s = Inr (r, t) \<longrightarrow> m_batt_meas_param t = m_batt_meas_param s)
   \<and> (battery_service_init e s = Inr (r, t) \<longrightarrow> m_batt_meas_param t = m_batt_meas_param s)"
  using m_batt_meas_init_stores [of e irq h i s s'] run_param [of e xs s t]
    interface_param(1) [of e ms s r t] interface_param(2) [of e s r t]
    interface_param(3) [of e s r t]
  by (auto simp: param_check_ignores_table batt_voltage_to_percent_def Let_def)

lemma param_check_keeps_adc:
  "saadc_initialized (snd (param_check (Some i) s)) = saadc_initialized s"
  by (simp add: param_check_Some Let_def)

lemma m_batt_meas_init_succeeds:
  assumes ok: "fst (param_check (Some i) s) = NRF_SUCCESS"
    and idle: "\<not> saadc_initialized s"
    and pin: "batt_mon_en_pin_used (batt_meas_param i) \<longrightarrow> gpiote_out_init_ret e = NRF_SUCCESS"
    and cal: "saadc_calibrate_offset_ret e = NRF_SUCCESS"
    and put: "sched_event_put_ret e = NRF_SUCCESS"
    and arrives: "irq m = Some NRF_DRV_SAADC_EVT_CALIBRATEDONE"
  shows "\<exists>s'. m_batt_meas_init e irq True (Some i) s = Some (Inr (NRF_SUCCESS, s'))"
proof -
  obtain s0 where pc: "param_check (Some i) s = (NRF_SUCCESS, s0)"
    using ok by (cases "param_check (Some i) s") simp
  have idle0: "\<not> saadc_initialized s0"
    using param_check_keeps_adc [of i s] pc idle by simp
  define s1 where "s1 = s0\<lparr>m_evt_handler := evt_handler i, m_batt_meas_param := batt_meas_param i\<rparr>"
  define s2 where "s2 = log_call Nrf_Gpio_Cfg_Input
     (if batt_mon_en_pin_used (batt_meas_param i) then log_call Nrf_Drv_Gpiote_Out_Init s1 else s1)"
  have idle2: "\<not> saadc_initialized s2"
    using idle0 by (simp add: s2_def s1_def log_call_def)
  from saadc_calibrate_returns [of s2 e irq m, OF idle2 cal put arrives]
  obtain s' where "saadc_calibrate e irq s2 = Some (Inr (M_BATT_STATUS_CODE_SUCCESS, s'))"
    by blast
  then have "m_batt_meas_init e irq True (Some i) s = Some (Inr (NRF_SUCCESS, s'))"
    using pc pin
    by (cases "batt_mon_en_pin_used (batt_meas_param i)")
       (simp_all add: m_batt_meas_init_def Let_def s1_def s2_def)
  then show ?thesis ..
qed

theorem soc_lookup_defined_only_if_delta_positive_witness:
  "\<exists>s'. m_batt_meas_init env_example (irq_after 2) True (Some init_zero_delta) state0
           = Some (Inr (NRF_SUCCESS, s'))
        \<and> batt_voltage_to_percent (m_batt_meas_param s') 3700 = Inl Division_By_Zero
        \<and> param_check (Some init_zero_delta) state0 = param_check (Some init_example) state0"
proof -
  have "\<exists>s'. m_batt_meas_init env_example (irq_after 2) True (Some init_zero_delta) state0
           = Some (Inr (NRF_SUCCESS, s'))"
    by (rule m_batt_meas_init_succeeds [where m = 2])
       (simp_all add: param_check_Some example_defs irq_after_def)
  then obtain s' where init: "m_batt_meas_init env_example (irq_after 2) True
      (Some init_zero_delta) state0 = Some (Inr (NRF_SUCCESS, s'))" ..
  have zero: "delta_mv (state_of_charge (batt_meas_param init_zero_delta)) = 0"
    by (simp add: example_defs)
  have eq: "init_zero_delta = init_example\<lparr>batt_meas_param :=
       (batt_meas_param init_example)\<lparr>state_of_charge := soc_example\<lparr>delta_mv := 0\<rparr>\<rparr>\<rparr>"
    by (simp add: example_defs)
  from soc_lookup_defined_only_if_delta_positive
         [where p = "batt_meas_param init_zero_delta" and v = 3700 and i = init_example
            and soc = "soc_example\<lparr>delta_mv := 0\<rparr>" and s = state0 and e = env_example
            and irq = "irq_after 2" and h = True and s' = s']
       soc_lookup_defined_only_if_delta_positive
         [where p = "batt_meas_param init_zero_delta" and v = 3700 and i = init_zero_delta
            and soc = "soc_example\<lparr>delta_mv := 0\<rparr>" and s = state0 and e = env_example
            and irq = "irq_after 2" and h = True and s' = s']
       init zero
  show ?thesis
    by (auto simp: eq [symmetric])
qed

subsection \<open>Initialisation of the example configuration\<close>

text \<open>
  Initialising with the example configuration, the calibration-done interrupt
  arriving during the third turn of the loop, leaves the module in the state that
  the examples start from.
\<close>

lemma cal_wait_example:
  "cal_wait env_example (irq_after 2) 0 (s\<lparr>m_adc_cal_in_progress := True\<rparr>)
     = Some (Inr (s\<lparr>m_adc_cal_in_progress := False, saadc_initialized := False,
                     calls := calls s @ [Nrf_Drv_Saadc_Uninit]\<rparr>))"
  apply (subst cal_wait.simps)
  apply (simp add: irq_after_def)
  apply (subst cal_wait.simps)
  apply (simp add: irq_after_def)
  apply (subst cal_wait.simps)
  apply (simp add: irq_after_def irq_handler_simps)
  apply (subst cal_wait.simps)
  apply simp
  done

lemma m_batt_meas_init_example:
  "m_batt_meas_init env_example (irq_after 2) True (Some init_example) state0
     = Some (Inr (M_BATT_STATUS_CODE_SUCCESS,
          state_ready\<lparr>calls := [Nrf_Gpio_Cfg_Input, Nrf_Drv_Saadc_Init,
                                 Nrf_Drv_Saadc_Calibrate_Offset, Nrf_Drv_Saadc_Uninit]\<rparr>))"
proof -
  define s1 where "s1 = state_ready\<lparr>saadc_initialized := True,
      calls := [Nrf_Gpio_Cfg_Input, Nrf_Drv_Saadc_Init, Nrf_Drv_Saadc_Calibrate_Offset]\<rparr>"
  have "cal_wait env_example (irq_after 2) 0 (s1\<lparr>m_adc_cal_in_progress := True\<rparr>)
     = Some (Inr (s1\<lparr>m_adc_cal_in_progress := False, saadc_initialized := False,
                     calls := calls s1 @ [Nrf_Drv_Saadc_Uninit]\<rparr>))"
    by (rule cal_wait_example)
  then show ?thesis
    by (simp add: m_batt_meas_init_def param_check_Some saadc_calibrate_def
          nrf_drv_saadc_init_def nrf_drv_saadc_calibrate_offset_def log_call_def Let_def
          example_defs s1_def)
qed

subsection \<open>Validity flag\<close>

lemma sched_run_events_valid:
  "sched_run e vs s = Inr s' \<Longrightarrow> \<forall>ev\<in>set (emitted (calls s)). valid_voltage ev \<Longrightarrow>
     \<forall>ev\<in>set (emitted (calls s')). valid_voltage ev"
proof (induction vs arbitrary: s)
  case Nil
  then show ?case by simp
next
  case (Cons v vs)
  from Cons.prems(1) obtain s1 where h: "batt_event_handler_adc e v s = Inr s1"
    and rest: "sched_run e vs s1 = Inr s'"
    by (auto split: sum.splits)
  from batt_event_handler_adc_emits [OF h] Cons.prems(2)
  have "\<forall>ev\<in>set (emitted (calls s1)). valid_voltage ev" by auto
  from Cons.IH [OF rest this] show ?case .
qed

lemma step_events_valid:
  assumes "step e x s = Inr s'" and "\<forall>ev\<in>set (emitted (calls s)). valid_voltage ev"
  shows "\<forall>ev\<in>set (emitted (calls s')). valid_voltage ev"
proof (cases x)
  case Timer_Tick
  with assms show ?thesis
    by (cases "saadc_initialized s")
       (auto simp: app_timer_periodic_handler_busy app_timer_periodic_handler_idle
             split: if_splits)
next
  case (Saadc_Irq ev)
  with assms show ?thesis
    by (cases ev) (auto simp: irq_handler_simps Let_def split: if_splits)
next
  case Sched_Execute
  with assms show ?thesis
    using sched_run_events_valid [of e "sched_queue s" "s\<lparr>sched_queue := []\<rparr>" s']
    by (simp add: app_sched_execute_def)
qed

lemma run_events_valid:
  "run e xs s = Inr s' \<Longrightarrow> \<forall>ev\<in>set (emitted (calls s)). valid_voltage ev \<Longrightarrow>
     \<forall>ev\<in>set (emitted (calls s')). valid_voltage ev"
proof (induction xs arbitrary: s)
  case Nil
  then show ?case by simp
next
  case (Cons x xs)
  from Cons.prems(1) obtain s1 where h: "step e x s = Inr s1" and rest: "run e xs s1 = Inr s'"
    by (auto split: sum.splits)
  from Cons.IH [OF rest step_events_valid [OF h Cons.prems(2)]] show ?case .
qed

text \<open>
  C10. Every event that the deferred handler \<open>batt_event_handler_adc\<close> passes to
  the application handler has \<open>valid_voltage\<close> set: a call that returns has added
  exactly one event to those emitted so far, and its flag is true. No other code
  path emits events: whatever sequence of timer ticks, interrupts and scheduler
  runs the module goes through, all emitted events have the flag set.
\<close>

theorem valid_voltage_always_true:
  "(batt_event_handler_adc e v s = Inr s'
      \<longrightarrow> (\<exists>ev. emitted (calls s') = emitted (calls s) @ [ev] \<and> valid_voltage ev))
   \<and> (run e xs s = Inr t \<and> (\<forall>ev\<in>set (emitted (calls s)). valid_voltage ev)
      \<longrightarrow> (\<forall>ev\<in>set (emitted (calls t)). valid_voltage ev))"
  using batt_event_handler_adc_emits [of e v s s'] run_events_valid [of e xs s t]
  by auto

theorem valid_voltage_always_true_witness:
  "map valid_voltage (events_of (batt_event_handler_adc env_example 3700 state_ready)) = [True]
   \<and> map valid_voltage (events_of (run env_example (measurement_cycle 512) state_ready)) = [True]"
proof -
  obtain s' where h: "batt_event_handler_adc env_example 3700 state_ready = Inr s'"
    by (simp add: handler_defs example_defs)
  obtain t where r: "run env_example (measurement_cycle 512) state_ready = Inr t"
    and n: "length (emitted (calls t)) = 1"
    by (simp add: measurement_cycle_def app_timer_periodic_handler_idle
        irq_handler_simps app_sched_execute_def handler_defs example_defs Let_def
        round_to_tens_def)
  have e: "emitted (calls state_ready) = []"
    by (simp add: state_ready_def state0_def)
  from valid_voltage_always_true [of env_example 3700 state_ready s' "measurement_cycle 512" t]
    h r e
  have "map valid_voltage (emitted (calls s')) = [True]"
    and "\<forall>ev\<in>set (emitted (calls t)). valid_voltage ev"
    by auto
  moreover from n obtain ev where "emitted (calls t) = [ev]"
    by (cases "emitted (calls t)") auto
  ultimately show ?thesis
    by (simp add: h r events_of_Inr)
qed

end
